theory Spec2Isabelle
  imports Main
begin

section \<open>Shared values: JSON, exceptions, message properties\<close>

text \<open>
  The programs are Python scripts over the pika client library. Python strings and
  byte strings are both modelled as \<open>string\<close>; Python integers as \<open>int\<close>.

  A JSON value as \<open>json.loads\<close> returns it and \<open>json.dumps\<close> takes it. \<open>JNull\<close>
  is Python's \<open>None\<close>, \<open>JObj\<close> a \<open>dict\<close> in association-list form, \<open>JFloat\<close> a
  float kept as its literal (nothing here computes with it).
\<close>

datatype json =
    JNull
  | JBool bool
  | JInt int
  | JFloat string
  | JStr string
  | JArr "json list"
  | JObj "(string \<times> json) list"

text \<open>
  Exceptions as values. \<open>BaseExc\<close> stands for the exceptions that are not instances
  of \<open>Exception\<close> (\<open>KeyboardInterrupt\<close>, \<open>SystemExit\<close>): an \<open>except Exception\<close>
  clause does not catch them. \<open>ChannelClosedByBroker\<close> carries the AMQP reply code.
\<close>

datatype pyexc =
    ChannelClosedByBroker nat
  | ChannelWrongStateError
  | ZeroDivisionError
  | Exc string
  | BaseExc string

fun is_Exception :: "pyexc \<Rightarrow> bool" where
  "is_Exception (BaseExc _) = False"
| "is_Exception _ = True"

text \<open>\<open>pika.BasicProperties\<close>, with the fields the programs set or read.\<close>

record basic_properties =
  content_type :: "string option"
  delivery_mode :: "nat option"
  app_id :: "string option"
  headers :: "(string \<times> string) list option"
  message_id :: "string option"
  timestamp :: "int option"

section \<open>The producer (producer.py)\<close>

text \<open>The command-line arguments of the producer that \<open>main\<close> reads after connecting.\<close>

record producer_args =
  exchange :: string
  queue :: string
  audit_queue :: string
  routing_key :: string
  count :: int
  text_arg :: string
  durable :: bool
  lazy :: bool
  purge :: bool
  progress_every :: int
  producer_id :: string

text \<open>
  The calls the publish loop makes to the outside: \<open>ch.basic_publish\<close> with its four
  arguments, and the progress \<open>print\<close> with the two numbers it interpolates.
\<close>

datatype pcall =
    BasicPublish string string json basic_properties
  | PrintProgress int int

text \<open>
  The outside world of a producer run: the value of the k-th call of \<open>uuid.uuid4()\<close>
  (as its \<open>str\<close>), the value of the k-th call of \<open>int(time.time())\<close>, the host name,
  and which outside calls raise.
\<close>

record penv =
  uuid4 :: "nat \<Rightarrow> string"
  time_now :: "nat \<Rightarrow> int"
  gethostname :: string
  praises :: "pcall \<Rightarrow> pyexc option"

text \<open>
  The state of the loop: the one \<open>props\<close> object that every iteration mutates, how
  often the two sources have been called, and the outside calls that have returned, in
  order.
\<close>

record pstate =
  props :: basic_properties
  uuid_calls :: nat
  time_calls :: nat
  done_calls :: "pcall list"

text \<open>\<open>props = pika.BasicProperties(...)\<close> of \<open>main\<close>, before the loop.\<close>

definition initial_props :: "penv \<Rightarrow> producer_args \<Rightarrow> basic_properties" where
  "initial_props env args =
     \<lparr> content_type = Some ''application/json'',
       delivery_mode = Some (if durable args then 2 else 1),
       app_id = Some ''rabbitmq.producer'',
       headers = Some [(''producer_id'', producer_id args), (''host'', gethostname env)],
       message_id = None,
       timestamp = None \<rparr>"

text \<open>The dict that one iteration serialises as the body.\<close>

definition body_of :: "producer_args \<Rightarrow> int \<Rightarrow> json" where
  "body_of args i =
     JObj [(''n'', JInt i), (''text'', JStr (text_arg args)), (''sent_by'', JStr (producer_id args))]"

text \<open>
  The body of \<open>for i in range(1, args.count + 1)\<close>, from iteration \<open>i\<close> on. The result
  is the exception that ended the run, if any, and the final state. \<open>basic_publish\<close>
  marshals the properties when it is called, so the call is recorded with the value
  \<open>props\<close> has at that moment. \<open>i % args.progress_every\<close> raises
  \<open>ZeroDivisionError\<close> when the divisor is 0; Python's \<open>%\<close> on integers is HOL's
  \<open>mod\<close> on \<open>int\<close> (the sign of the divisor).
\<close>

function publish_loop :: "penv \<Rightarrow> producer_args \<Rightarrow> int \<Rightarrow> pstate \<Rightarrow> pyexc option \<times> pstate" where
  "publish_loop env args i st =
     (if count args < i then (None, st)
      else
        let body = body_of args i;
            p1 = (props st)\<lparr> message_id := Some (uuid4 env (uuid_calls st)) \<rparr>;
            p2 = p1\<lparr> timestamp := Some (time_now env (time_calls st)) \<rparr>;
            st1 = st\<lparr> props := p2, uuid_calls := Suc (uuid_calls st),
                      time_calls := Suc (time_calls st) \<rparr>;
            pub = BasicPublish (exchange args) (routing_key args) body p2
        in case praises env pub of
             Some e \<Rightarrow> (Some e, st1)
           | None \<Rightarrow>
               let st2 = st1\<lparr> done_calls := done_calls st1 @ [pub] \<rparr> in
               if progress_every args = 0 then (Some ZeroDivisionError, st2)
               else if i mod progress_every args = 0 then
                 (case praises env (PrintProgress i (count args)) of
                    Some e \<Rightarrow> (Some e, st2)
                  | None \<Rightarrow>
                      publish_loop env args (i + 1)
                        (st2\<lparr> done_calls := done_calls st2 @ [PrintProgress i (count args)] \<rparr>))
               else publish_loop env args (i + 1) st2)"
  by pat_completeness auto
termination
  by (relation "measure (\<lambda>(env, args, i, st). nat (count args + 1 - i))") auto

declare publish_loop.simps [simp del]

text \<open>The run of the loop as \<open>main\<close> starts it: \<open>i = 1\<close>, fresh \<open>props\<close>, nothing called yet.\<close>

definition initial_pstate :: "penv \<Rightarrow> producer_args \<Rightarrow> pstate" where
  "initial_pstate env args =
     \<lparr> props = initial_props env args, uuid_calls = 0, time_calls = 0, done_calls = [] \<rparr>"

definition producer_run :: "penv \<Rightarrow> producer_args \<Rightarrow> pyexc option \<times> pstate" where
  "producer_run env args = publish_loop env args 1 (initial_pstate env args)"

text \<open>What a run has published: the envelopes of the publish calls that returned.\<close>

fun published :: "pcall list \<Rightarrow> (json \<times> basic_properties) list" where
  "published [] = []"
| "published (BasicPublish x rk b p # cs) = (b, p) # published cs"
| "published (PrintProgress i n # cs) = published cs"

text \<open>The envelope's \<open>sequence_number\<close> is the field \<open>n\<close> of the body.\<close>

fun sequence_number :: "json \<times> basic_properties \<Rightarrow> json option" where
  "sequence_number (JObj kv, p) = map_of kv ''n''"
| "sequence_number (_, p) = None"

definition envelope_id :: "json \<times> basic_properties \<Rightarrow> string option" where
  "envelope_id m = message_id (snd m)"

definition run_published :: "penv \<Rightarrow> producer_args \<Rightarrow> (json \<times> basic_properties) list" where
  "run_published env args = published (done_calls (snd (producer_run env args)))"


text \<open>A concrete outside world and concrete arguments, for running the model.\<close>

definition demo_env :: penv where
  "demo_env = \<lparr> uuid4 = (\<lambda>k. if k = 0 then ''id-a'' else if k = 1 then ''id-b'' else ''id-c''),
                time_now = (\<lambda>k. 1700000000 + int k),
                gethostname = ''host'',
                praises = (\<lambda>c. None) \<rparr>"

definition demo_args :: "int \<Rightarrow> int \<Rightarrow> producer_args" where
  "demo_args n k = \<lparr> exchange = ''direct.exchange'', queue = ''work.queue'',
                 audit_queue = ''audit.queue'', routing_key = ''work'', count = n,
                 text_arg = ''Hello World'', durable = False, lazy = False, purge = False,
                 progress_every = k, producer_id = ''alice'' \<rparr>"



section \<open>Properties of the producer\<close>

subsection \<open>What a run publishes\<close>

text \<open>
  The invariant of the publish loop: from iteration \<open>i\<close> and a state that has drawn
  \<open>uuid_calls\<close> identifiers, the loop adds \<open>k\<close> envelopes, numbered \<open>i, i + 1, ...\<close>
  and carrying the next \<open>k\<close> draws, one each; \<open>k\<close> is the number of remaining
  iterations when the loop ends without an exception, and never more.
\<close>

lemma published_append: "published (xs @ ys) = published xs @ published ys"
  by (induction xs rule: published.induct) simp_all

lemma upto_first: "[i..i + int (Suc k) - 1] = i # [i + 1..i + 1 + int k - 1]"
  by (simp add: upto_rec1)

lemma upt_first: "[u..<u + Suc k] = u # [Suc u..<Suc u + k]"
  by (simp add: upt_conv_Cons)

lemma publish_loop_inv:
  "publish_loop env args i st = (r, st') \<Longrightarrow>
   \<exists>k. map sequence_number (published (done_calls st')) =
         map sequence_number (published (done_calls st)) @ map (\<lambda>n. Some (JInt n)) [i..i + int k - 1]
     \<and> map envelope_id (published (done_calls st')) =
         map envelope_id (published (done_calls st)) @ map (\<lambda>j. Some (uuid4 env j)) [uuid_calls st..<uuid_calls st + k]
     \<and> int k \<le> max 0 (count args + 1 - i)
     \<and> (r = None \<longrightarrow> int k = max 0 (count args + 1 - i))"
proof (induction "nat (count args + 1 - i)" arbitrary: i st r st')
  case 0
  then have "count args < i" by simp
  with "0.prems" have "r = None" "st' = st" by (simp_all add: publish_loop.simps)
  with \<open>count args < i\<close> show ?case by (intro exI[of _ 0]) auto
next
  case (Suc n)
  then have le: "\<not> count args < i" and n: "n = nat (count args + 1 - (i + 1))" by auto
  define p2 where "p2 = (props st)\<lparr> message_id := Some (uuid4 env (uuid_calls st)), timestamp := Some (time_now env (time_calls st)) \<rparr>"
  define pub where "pub = BasicPublish (exchange args) (routing_key args) (body_of args i) p2"
  define st1 where "st1 = st\<lparr> props := p2, uuid_calls := Suc (uuid_calls st), time_calls := Suc (time_calls st) \<rparr>"
  define st2 where "st2 = st1\<lparr> done_calls := done_calls st1 @ [pub] \<rparr>"
  define st3 where "st3 = st2\<lparr> done_calls := done_calls st2 @ [PrintProgress i (count args)] \<rparr>"
  have step: "publish_loop env args i st =
     (case praises env pub of
        Some e \<Rightarrow> (Some e, st1)
      | None \<Rightarrow>
          if progress_every args = 0 then (Some ZeroDivisionError, st2)
          else if i mod progress_every args = 0 then
            (case praises env (PrintProgress i (count args)) of
               Some e \<Rightarrow> (Some e, st2)
             | None \<Rightarrow> publish_loop env args (i + 1) st3)
          else publish_loop env args (i + 1) st2)"
    using le by (subst publish_loop.simps) (simp add: Let_def p2_def pub_def st1_def st2_def st3_def split: option.split)
  have one: "map sequence_number (published (done_calls st2)) = map sequence_number (published (done_calls st)) @ [Some (JInt i)]"
     "map envelope_id (published (done_calls st2)) = map envelope_id (published (done_calls st)) @ [Some (uuid4 env (uuid_calls st))]"
     "published (done_calls st3) = published (done_calls st2)"
     "uuid_calls st2 = Suc (uuid_calls st)" "uuid_calls st3 = Suc (uuid_calls st)" "done_calls st1 = done_calls st"
    by (simp_all add: st3_def st2_def st1_def pub_def p2_def published_append body_of_def envelope_id_def)
  have k1: "\<exists>k. map sequence_number (published (done_calls st2)) =
         map sequence_number (published (done_calls st)) @ map (\<lambda>n. Some (JInt n)) [i..i + int k - 1]
     \<and> map envelope_id (published (done_calls st2)) =
         map envelope_id (published (done_calls st)) @ map (\<lambda>j. Some (uuid4 env j)) [uuid_calls st..<uuid_calls st + k]
     \<and> int k \<le> max 0 (count args + 1 - i)"
    using le by (intro exI[of _ 1]) (simp add: one)
  have rec: "\<exists>k. map sequence_number (published (done_calls st')) =
         map sequence_number (published (done_calls st)) @ map (\<lambda>n. Some (JInt n)) [i..i + int k - 1]
     \<and> map envelope_id (published (done_calls st')) =
         map envelope_id (published (done_calls st)) @ map (\<lambda>j. Some (uuid4 env j)) [uuid_calls st..<uuid_calls st + k]
     \<and> int k \<le> max 0 (count args + 1 - i)
     \<and> (r = None \<longrightarrow> int k = max 0 (count args + 1 - i))"
    if run: "publish_loop env args (i + 1) s = (r, st')"
      and s: "map sequence_number (published (done_calls s)) = map sequence_number (published (done_calls st)) @ [Some (JInt i)]"
         "map envelope_id (published (done_calls s)) = map envelope_id (published (done_calls st)) @ [Some (uuid4 env (uuid_calls st))]"
         "uuid_calls s = Suc (uuid_calls st)" for s
  proof -
    from Suc.hyps(1)[OF n run] obtain k where
      k: "map sequence_number (published (done_calls st')) =
            map sequence_number (published (done_calls s)) @ map (\<lambda>n. Some (JInt n)) [i + 1..i + 1 + int k - 1]"
         "map envelope_id (published (done_calls st')) =
            map envelope_id (published (done_calls s)) @ map (\<lambda>j. Some (uuid4 env j)) [uuid_calls s..<uuid_calls s + k]"
         "int k \<le> max 0 (count args + 1 - (i + 1))"
         "r = None \<longrightarrow> int k = max 0 (count args + 1 - (i + 1))"
      by blast
    show ?thesis
    proof -
      have a: "[i..i + int k] = i # [i + 1..i + int k]"
        by (simp add: upto_rec1)
      have b: "[uuid_calls st..<Suc (uuid_calls st + k)] = uuid_calls st # [Suc (uuid_calls st)..<Suc (uuid_calls st + k)]"
        by (simp add: upt_conv_Cons)
      show ?thesis
        using k le by (intro exI[of _ "Suc k"]) (simp add: s a b del: upt_Suc)
    qed
  qed
  show ?case
  proof (cases "praises env pub")
    case (Some e)
    with Suc.prems step have "r = Some e" "st' = st1" by simp_all
    then show ?thesis by (intro exI[of _ 0]) (simp add: one)
  next
    case None
    show ?thesis
    proof (cases "progress_every args = 0")
      case True
      with None Suc.prems step have "r = Some ZeroDivisionError" "st' = st2" by simp_all
      with k1 show ?thesis by simp
    next
      case nz: False
      show ?thesis
      proof (cases "i mod progress_every args = 0")
        case False
        with nz None Suc.prems step have "publish_loop env args (i + 1) st2 = (r, st')" by simp
        then show ?thesis by (rule rec) (simp_all add: one)
      next
        case True
        show ?thesis
        proof (cases "praises env (PrintProgress i (count args))")
          case (Some e)
          with True nz None Suc.prems step have "r = Some e" "st' = st2" by simp_all
          with k1 show ?thesis by simp
        next
          case no: None
          with True nz None Suc.prems step have "publish_loop env args (i + 1) st3 = (r, st')" by simp
          then show ?thesis by (rule rec) (simp_all add: one)
        qed
      qed
    qed
  qed
qed


lemma run_inv:
  "\<exists>k. map sequence_number (run_published env args) = map (\<lambda>n. Some (JInt n)) [1..int k]
     \<and> map envelope_id (run_published env args) = map (\<lambda>j. Some (uuid4 env j)) [0..<k]
     \<and> int k \<le> max 0 (count args)
     \<and> (fst (producer_run env args) = None \<longrightarrow> int k = max 0 (count args))"
proof -
  obtain r st' where run: "publish_loop env args 1 (initial_pstate env args) = (r, st')"
    by (cases "publish_loop env args 1 (initial_pstate env args)")
  have a: "run_published env args = published (done_calls st')" "fst (producer_run env args) = r"
    by (simp_all add: run_published_def producer_run_def run)
  have b: "done_calls (initial_pstate env args) = []" "uuid_calls (initial_pstate env args) = 0"
    by (simp_all add: initial_pstate_def)
  from publish_loop_inv[OF run] show ?thesis
    by (simp add: a b)
qed

lemma run_length:
  assumes "map envelope_id (run_published env args) = map (\<lambda>j. Some (uuid4 env j)) [0..<k]"
  shows "k = length (run_published env args)"
proof -
  have "length (map envelope_id (run_published env args)) = length (map (\<lambda>j. Some (uuid4 env j)) [0..<k])"
    using assms by simp
  then show ?thesis by simp
qed


text \<open>
  \<^bold>\<open>C2\<close> (envelope uniqueness). Let \<open>N\<close> be the number of messages a producer run
  has published. Their \<open>sequence_number\<close>s are \<open>1, 2, ..., N\<close> in publish order, the
  \<open>message_id\<close> of the j-th message is the j-th draw of \<open>uuid.uuid4()\<close>, a fresh
  draw for each message, so the \<open>N\<close> identifiers are pairwise distinct whenever the
  generator's first \<open>N\<close> draws are (its contract: the draws are random 122-bit values);
  and a run that ends without an exception has published \<open>N = max 0 count\<close> messages.
\<close>

theorem envelope_uniqueness:
  assumes "distinct (map (uuid4 env) [0..<length (run_published env args)])"
  shows "map sequence_number (run_published env args) =
           map (\<lambda>n. Some (JInt n)) [1..int (length (run_published env args))]
       \<and> map envelope_id (run_published env args) =
           map (\<lambda>j. Some (uuid4 env j)) [0..<length (run_published env args)]
       \<and> distinct (map envelope_id (run_published env args))
       \<and> (fst (producer_run env args) = None \<longrightarrow>
            int (length (run_published env args)) = max 0 (count args))"
proof -
  from run_inv[of env args] obtain k where
    k1: "map sequence_number (run_published env args) = map (\<lambda>n. Some (JInt n)) [1..int k]" and
    k2: "map envelope_id (run_published env args) = map (\<lambda>j. Some (uuid4 env j)) [0..<k]" and
    k3: "fst (producer_run env args) = None \<longrightarrow> int k = max 0 (count args)"
    by (elim exE conjE)
  have len: "length (run_published env args) = k"
    using run_length[OF k2] by (rule sym)
  have inj: "inj_on Some (set (map (uuid4 env) [0..<k]))"
    by (rule inj_onI) simp
  have "distinct (map (uuid4 env) [0..<k])"
    using assms unfolding len .
  then have "distinct (map Some (map (uuid4 env) [0..<k]))"
    using inj by (simp only: distinct_map) 
  then have d: "distinct (map (\<lambda>j. Some (uuid4 env j)) [0..<k])"
    by (simp only: map_map comp_def)
  have d': "distinct (map envelope_id (run_published env args))"
    unfolding k2 by (rule d)
  show ?thesis
    unfolding len using k1 k2 k3 d' by (intro conjI)
qed


theorem envelope_uniqueness_witness:
  "distinct (map (uuid4 demo_env) [0..<length (run_published demo_env (demo_args 2 7))])
   \<and> length (run_published demo_env (demo_args 2 7)) = 2
   \<and> map sequence_number (run_published demo_env (demo_args 2 7)) = [Some (JInt 1), Some (JInt 2)]
   \<and> map envelope_id (run_published demo_env (demo_args 2 7)) = [Some ''id-a'', Some ''id-b'']
   \<and> distinct (map envelope_id (run_published demo_env (demo_args 2 7)))"
proof -
  have run: "run_published demo_env (demo_args 2 7) =
    [(body_of (demo_args 2 7) 1,
      (initial_props demo_env (demo_args 2 7))\<lparr> message_id := Some ''id-a'', timestamp := Some 1700000000 \<rparr>),
     (body_of (demo_args 2 7) 2,
      (initial_props demo_env (demo_args 2 7))\<lparr> message_id := Some ''id-b'', timestamp := Some 1700000001 \<rparr>)]"
    by (simp add: run_published_def producer_run_def initial_pstate_def demo_env_def
        demo_args_def publish_loop.simps Let_def)
  have len: "length (run_published demo_env (demo_args 2 7)) = 2"
    by (simp add: run)
  have d: "distinct (map (uuid4 demo_env) [0..<length (run_published demo_env (demo_args 2 7))])"
    unfolding len by (simp add: demo_env_def upt_conv_Cons)
  have s: "map sequence_number (run_published demo_env (demo_args 2 7)) = [Some (JInt 1), Some (JInt 2)]"
    by (simp add: run body_of_def)
  have i: "map envelope_id (run_published demo_env (demo_args 2 7)) = [Some ''id-a'', Some ''id-b'']"
    by (simp add: run envelope_id_def)
  from envelope_uniqueness[OF d] have "distinct (map envelope_id (run_published demo_env (demo_args 2 7)))"
    by (elim conjE)
  with d len s i show ?thesis by (intro conjI)
qed

subsection \<open>The progress check\<close>

lemma publish_loop_completes:
  assumes ok: "\<forall>c. praises env c = None" and nz: "progress_every args \<noteq> 0"
  shows "fst (publish_loop env args i st) = None"
proof (induction "nat (count args + 1 - i)" arbitrary: i st)
  case 0
  then have "count args < i" by simp
  then show ?case by (simp add: publish_loop.simps)
next
  case (Suc n)
  then have le: "\<not> count args < i" and n: "n = nat (count args + 1 - (i + 1))" by auto
  show ?case
    using le nz ok Suc.hyps(1)[OF n] by (subst publish_loop.simps) (simp add: Let_def)
qed

lemma first_iteration_zero:
  assumes "1 \<le> count args" and "progress_every args = 0"
    and "praises env (BasicPublish (exchange args) (routing_key args) (body_of args 1)
           ((initial_props env args)\<lparr> message_id := Some (uuid4 env 0), timestamp := Some (time_now env 0) \<rparr>)) = None"
  shows "producer_run env args =
     (Some ZeroDivisionError,
      \<lparr> props = (initial_props env args)\<lparr> message_id := Some (uuid4 env 0), timestamp := Some (time_now env 0) \<rparr>,
        uuid_calls = 1, time_calls = 1,
        done_calls = [BasicPublish (exchange args) (routing_key args) (body_of args 1)
           ((initial_props env args)\<lparr> message_id := Some (uuid4 env 0), timestamp := Some (time_now env 0) \<rparr>)] \<rparr>)"
  using assms by (simp add: producer_run_def initial_pstate_def publish_loop.simps Let_def)

text \<open>
  \<^bold>\<open>C9\<close>. The progress check computes \<open>i % progress_every\<close> after each publish.
  In a run with \<open>count \<ge> 1\<close> in which no outside call raises: with
  \<open>progress_every = 0\<close> the run ends in \<open>ZeroDivisionError\<close> with exactly the first
  message published, and with \<open>progress_every \<noteq> 0\<close> it ends without an exception
  with all \<open>count\<close> messages published.
\<close>

theorem progress_every_zero_raises:
  assumes "1 \<le> count args" and "\<forall>c. praises env c = None"
  shows "(progress_every args = 0 \<longrightarrow>
            fst (producer_run env args) = Some ZeroDivisionError
          \<and> done_calls (snd (producer_run env args)) =
              [BasicPublish (exchange args) (routing_key args) (body_of args 1)
                 ((initial_props env args)\<lparr> message_id := Some (uuid4 env 0),
                                             timestamp := Some (time_now env 0) \<rparr>)])
       \<and> (progress_every args \<noteq> 0 \<longrightarrow>
            fst (producer_run env args) = None
          \<and> int (length (run_published env args)) = count args)"
proof (intro conjI impI)
  assume z: "progress_every args = 0"
  have p: "praises env (BasicPublish (exchange args) (routing_key args) (body_of args 1)
           ((initial_props env args)\<lparr> message_id := Some (uuid4 env 0), timestamp := Some (time_now env 0) \<rparr>)) = None"
    using assms(2) by simp
  note r = first_iteration_zero[OF assms(1) z p]
  show "fst (producer_run env args) = Some ZeroDivisionError" by (simp add: r)
  show "done_calls (snd (producer_run env args)) =
              [BasicPublish (exchange args) (routing_key args) (body_of args 1)
                 ((initial_props env args)\<lparr> message_id := Some (uuid4 env 0),
                                             timestamp := Some (time_now env 0) \<rparr>)]"
    by (simp add: r)
next
  assume nz: "progress_every args \<noteq> 0"
  show none: "fst (producer_run env args) = None"
    unfolding producer_run_def by (rule publish_loop_completes[OF assms(2) nz])
  from run_inv[of env args] obtain k where
    k2: "map envelope_id (run_published env args) = map (\<lambda>j. Some (uuid4 env j)) [0..<k]" and
    k3: "fst (producer_run env args) = None \<longrightarrow> int k = max 0 (count args)"
    by (elim exE conjE)
  have "length (run_published env args) = k"
    using run_length[OF k2] by (rule sym)
  with k3 none assms(1) show "int (length (run_published env args)) = count args" by simp
qed

theorem progress_every_zero_raises_witness:
  "1 \<le> count (demo_args 2 0) \<and> progress_every (demo_args 2 0) = 0
   \<and> fst (producer_run demo_env (demo_args 2 0)) = Some ZeroDivisionError
   \<and> length (run_published demo_env (demo_args 2 0)) = 1
   \<and> 1 \<le> count (demo_args 2 7) \<and> progress_every (demo_args 2 7) = 7
   \<and> fst (producer_run demo_env (demo_args 2 7)) = None
   \<and> int (length (run_published demo_env (demo_args 2 7))) = 2"
proof -
  have ok: "\<forall>c. praises demo_env c = None" by (simp add: demo_env_def)
  have a0: "1 \<le> count (demo_args 2 0)" "progress_every (demo_args 2 0) = 0"
    and a7: "1 \<le> count (demo_args 2 7)" "progress_every (demo_args 2 7) = 7" "count (demo_args 2 7) = 2"
    by (simp_all add: demo_args_def)
  from progress_every_zero_raises[OF a0(1) ok] a0(2)
  have z: "fst (producer_run demo_env (demo_args 2 0)) = Some ZeroDivisionError"
    "length (run_published demo_env (demo_args 2 0)) = 1"
    by (simp_all add: run_published_def)
  from progress_every_zero_raises[OF a7(1) ok] a7
  have n: "fst (producer_run demo_env (demo_args 2 7)) = None"
    "int (length (run_published demo_env (demo_args 2 7))) = 2"
    by simp_all
  from a0 a7(1,2) z n show ?thesis by (intro conjI)
qed


section \<open>Connecting (open_channel in producer.py and consumer.py)\<close>

text \<open>
  The keyword arguments with which \<open>open_channel\<close> builds
  \<open>pika.ConnectionParameters\<close>. A field is \<open>None\<close> when the call does not pass the
  keyword, so that the library's default applies. \<open>credentials\<close> is also \<open>None\<close> when
  the code passes \<open>None\<close>, which it does for an empty user name.
\<close>

record connection_parameters =
  host :: string
  virtual_host :: string
  credentials :: "(string \<times> string) option"
  client_properties :: "(string \<times> string) list"
  heartbeat :: "int option"
  blocked_connection_timeout :: "int option"

text \<open>
  Both programs name the function \<open>open_channel\<close>; the model prefixes the program.
  The value is the parameter object handed to \<open>pika.BlockingConnection\<close>; opening
  the connection and its first channel is the library's part.
\<close>

definition producer_open_channel ::
  "string \<Rightarrow> string \<Rightarrow> string \<Rightarrow> string \<Rightarrow> string \<Rightarrow> connection_parameters" where
  "producer_open_channel h vhost username password conn_name =
     \<lparr> host = h, virtual_host = vhost,
       credentials = (if username \<noteq> [] then Some (username, password) else None),
       client_properties = [(''connection_name'', conn_name)],
       heartbeat = None,
       blocked_connection_timeout = None \<rparr>"

definition consumer_open_channel ::
  "string \<Rightarrow> string \<Rightarrow> string \<Rightarrow> string \<Rightarrow> string \<Rightarrow> connection_parameters" where
  "consumer_open_channel h vhost username password conn_name =
     \<lparr> host = h, virtual_host = vhost,
       credentials = (if username \<noteq> [] then Some (username, password) else None),
       client_properties = [(''connection_name'', conn_name)],
       heartbeat = Some 600,
       blocked_connection_timeout = Some 300 \<rparr>"

text \<open>
  \<^bold>\<open>C8\<close>, as stated, at the producer: its \<open>open_channel\<close> passes neither a heartbeat
  nor a blocked-connection timeout.
\<close>

theorem producer_connect_counterexample:
  "heartbeat (producer_open_channel ''localhost'' ''/'' ''guest'' ''guest'' ''RabbitMQ Producer (host)'') = None
   \<and> blocked_connection_timeout
       (producer_open_channel ''localhost'' ''/'' ''guest'' ''guest'' ''RabbitMQ Producer (host)'') = None"
  by (simp add: producer_open_channel_def)

text \<open>
  \<^bold>\<open>C8\<close>, amended. The consumer's \<open>open_channel\<close> sets a heartbeat of 600 seconds and
  a blocked-connection timeout of 300 seconds, whatever its arguments; the producer's
  \<open>open_channel\<close> sets neither and leaves both to the client library's defaults.
\<close>

theorem connect_timeouts:
  "heartbeat (consumer_open_channel h v u p n) = Some 600
   \<and> blocked_connection_timeout (consumer_open_channel h v u p n) = Some 300
   \<and> heartbeat (producer_open_channel h v u p n) = None
   \<and> blocked_connection_timeout (producer_open_channel h v u p n) = None"
  by (simp add: consumer_open_channel_def producer_open_channel_def)

section \<open>The consumer callback (on_msg in consumer.py)\<close>

text \<open>The arguments of the consumer that the callback reads.\<close>

record consumer_args =
  name :: string
  expect :: "int option"

text \<open>
  The \<open>method\<close> object of a delivery. The terminal consumer reads its
  \<open>delivery_tag\<close>; the second callback, in consumer_gui.py, also reads an attribute
  \<open>channel\<close> from it, \<open>None\<close> here when the object has no such attribute.
\<close>

record deliver =
  delivery_tag :: nat
  channel :: "nat option"

text \<open>
  The calls of a callback to the outside. \<open>Print\<close> is the display step: it carries
  the values the f-string interpolates (name, count, message id, producer, \<open>n\<close>,
  \<open>text\<close>). \<open>PrintError\<close> and \<open>PrintExc\<close> are the two logging calls of the second
  callback's handler. Channels are numbered; \<open>BasicNack\<close> carries \<open>requeue\<close>.
\<close>

datatype ccall =
    Print string int "string option" "string option" json json
  | BasicAck nat nat
  | BasicNack nat nat bool
  | StopConsuming nat
  | PrintError string pyexc
  | PrintExc pyexc

text \<open>What came of a call: it returned, or it raised.\<close>

datatype event = Returned ccall | Raised ccall pyexc

text \<open>
  The outside world of the consumer: \<open>json.loads\<close> (\<open>None\<close> when it raises, always
  an instance of \<open>Exception\<close>: \<open>JSONDecodeError\<close>, \<open>UnicodeDecodeError\<close>),
  \<open>bytes.decode("utf-8", "ignore")\<close>, which never raises, and which outside calls
  raise.
\<close>

record cenv =
  json_loads :: "string \<Rightarrow> json option"
  decode_utf8_ignore :: "string \<Rightarrow> string"
  craises :: "ccall \<Rightarrow> pyexc option"

text \<open>\<open>data.get(key)\<close>: \<open>None\<close> for a missing key; only a dict has the method.\<close>

definition dict_get :: "(string \<times> json) list \<Rightarrow> string \<Rightarrow> json" where
  "dict_get kv k = (case map_of kv k of None \<Rightarrow> JNull | Some v \<Rightarrow> v)"

text \<open>
  The inner \<open>try\<close> of the callback, the pair \<open>(text, n)\<close> it leaves. \<open>json.loads\<close>
  raising, and \<open>data.get\<close> raising \<open>AttributeError\<close> on a value that is not a dict,
  both end in the \<open>except Exception\<close> branch.
\<close>

definition decode_body :: "cenv \<Rightarrow> string \<Rightarrow> json \<times> json" where
  "decode_body env body =
     (case json_loads env body of
        Some (JObj kv) \<Rightarrow> (dict_get kv ''text'', dict_get kv ''n'')
      | _ \<Rightarrow> (JStr (decode_utf8_ignore env body), JStr ''?''))"

text \<open>\<open>(props.headers or {}).get("producer_id") if props else None\<close>\<close>

definition producer_of :: "basic_properties option \<Rightarrow> string option" where
  "producer_of ps =
     (case ps of
        None \<Rightarrow> None
      | Some p \<Rightarrow> map_of (case headers p of None \<Rightarrow> [] | Some h \<Rightarrow> h) ''producer_id'')"

text \<open>\<open>getattr(props, "message_id", None)\<close>\<close>

definition msg_id_of :: "basic_properties option \<Rightarrow> string option" where
  "msg_id_of ps = (case ps of None \<Rightarrow> None | Some p \<Rightarrow> message_id p)"

text \<open>\<open>args.expect and count >= args.expect\<close>: \<open>None\<close> and \<open>0\<close> are falsy.\<close>

definition enough :: "consumer_args \<Rightarrow> int \<Rightarrow> bool" where
  "enough args c = (case expect args of None \<Rightarrow> False | Some x \<Rightarrow> x \<noteq> 0 \<and> x \<le> c)"

text \<open>
  What one call of a callback leaves: the outside calls it made, in order, the
  exception that left it, if any, whether it has stopped the consumer, and the
  counter.
\<close>

record outcome =
  trace :: "event list"
  raised :: "pyexc option"
  stopped :: bool
  new_count :: int

text \<open>The display line of a delivery, with the counter already incremented.\<close>

definition display_line ::
  "cenv \<Rightarrow> consumer_args \<Rightarrow> int \<Rightarrow> basic_properties option \<Rightarrow> string \<Rightarrow> ccall" where
  "display_line env args c ps body =
     Print (name args) c (msg_id_of ps) (producer_of ps)
       (snd (decode_body env body)) (fst (decode_body env body))"

text \<open>
  \<open>on_msg(ch_cb, method, props, body)\<close> of consumer.py, with the counter it shares
  with \<open>main\<close> passed in and out. Nothing in it catches an exception of the display,
  of \<open>basic_ack\<close> or of \<open>stop_consuming\<close>.
\<close>

definition on_msg ::
  "cenv \<Rightarrow> consumer_args \<Rightarrow> int \<Rightarrow> nat \<Rightarrow> deliver \<Rightarrow> basic_properties option \<Rightarrow> string \<Rightarrow> outcome" where
  "on_msg env args cnt ch_cb method ps body =
     (let c = cnt + 1;
          pr = display_line env args c ps body;
          ack = BasicAck ch_cb (delivery_tag method);
          stop = StopConsuming ch_cb
      in case craises env pr of
           Some e \<Rightarrow> \<lparr> trace = [Raised pr e], raised = Some e, stopped = False, new_count = c \<rparr>
         | None \<Rightarrow>
            (case craises env ack of
               Some e \<Rightarrow>
                 \<lparr> trace = [Returned pr, Raised ack e], raised = Some e, stopped = False,
                   new_count = c \<rparr>
             | None \<Rightarrow>
                 if enough args c then
                   (case craises env stop of
                      Some e \<Rightarrow>
                        \<lparr> trace = [Returned pr, Returned ack, Raised stop e], raised = Some e,
                          stopped = False, new_count = c \<rparr>
                    | None \<Rightarrow>
                        \<lparr> trace = [Returned pr, Returned ack, Returned stop], raised = None,
                          stopped = True, new_count = c \<rparr>)
                 else
                   \<lparr> trace = [Returned pr, Returned ack], raised = None, stopped = False,
                     new_count = c \<rparr>))"

text \<open>
  A delivery as the library hands it to the callback: the delivering channel, the
  method, the properties and the body.
\<close>

type_synonym delivery = "nat \<times> deliver \<times> basic_properties option \<times> string"

text \<open>
  \<open>ch.start_consuming()\<close> over the deliveries the broker sends, in order: the library
  calls the callback for each one until the callback has stopped the consumer, and an
  exception of the callback leaves \<open>start_consuming\<close>, so that no later delivery is
  handled. The callback is a parameter, for the two callbacks of the repository.
\<close>

fun start_consuming :: "(int \<Rightarrow> delivery \<Rightarrow> outcome) \<Rightarrow> int \<Rightarrow> delivery list \<Rightarrow> outcome" where
  "start_consuming cb cnt [] = \<lparr> trace = [], raised = None, stopped = False, new_count = cnt \<rparr>"
| "start_consuming cb cnt (d # ds) =
     (let r = cb cnt d in
      if raised r \<noteq> None \<or> stopped r then r
      else (let r' = start_consuming cb (new_count r) ds in r'\<lparr> trace := trace r @ trace r' \<rparr>))"

text \<open>The terminal consumer's loop.\<close>

definition consume :: "cenv \<Rightarrow> consumer_args \<Rightarrow> delivery list \<Rightarrow> outcome" where
  "consume env args ds =
     start_consuming (\<lambda>cnt (ch_cb, method, ps, body). on_msg env args cnt ch_cb method ps body) 0 ds"

text \<open>
  The acknowledgments and negative acknowledgments a callback has issued, in order,
  whether the call returned or raised.
\<close>

fun call_of :: "event \<Rightarrow> ccall" where
  "call_of (Returned c) = c"
| "call_of (Raised c e) = c"

fun settles :: "ccall \<Rightarrow> bool" where
  "settles (BasicAck c t) = True"
| "settles (BasicNack c t r) = True"
| "settles _ = False"

definition settlements :: "event list \<Rightarrow> ccall list" where
  "settlements tr = filter settles (map call_of tr)"

section \<open>The second callback (on_msg in consumer_gui.py)\<close>

text \<open>
  consumer_gui.py holds, after the commented-out callback of \<open>run_consumer\<close>, a second
  \<open>on_msg\<close> written against the terminal consumer's variables (\<open>args.name\<close>,
  \<open>args.expect\<close>, the shared \<open>count\<close>). Its body is one \<open>try\<close>, modelled by
  \<open>gui_try\<close>: the steps of the terminal callback, with the acknowledgment sent on
  \<open>method.channel\<close>; reading that attribute raises \<open>AttributeError\<close> when the method
  object has none.
\<close>

definition gui_try ::
  "cenv \<Rightarrow> consumer_args \<Rightarrow> int \<Rightarrow> nat \<Rightarrow> deliver \<Rightarrow> basic_properties option \<Rightarrow> string \<Rightarrow> outcome" where
  "gui_try env args cnt ch_cb method ps body =
     (let c = cnt + 1;
          pr = display_line env args c ps body;
          stop = StopConsuming ch_cb
      in case craises env pr of
           Some e \<Rightarrow> \<lparr> trace = [Raised pr e], raised = Some e, stopped = False, new_count = c \<rparr>
         | None \<Rightarrow>
            (case channel method of
               None \<Rightarrow>
                 \<lparr> trace = [Returned pr], raised = Some (Exc ''AttributeError''), stopped = False,
                   new_count = c \<rparr>
             | Some mc \<Rightarrow>
                 let ack = BasicAck mc (delivery_tag method) in
                 (case craises env ack of
                    Some e \<Rightarrow>
                      \<lparr> trace = [Returned pr, Raised ack e], raised = Some e, stopped = False,
                        new_count = c \<rparr>
                  | None \<Rightarrow>
                      if enough args c then
                        (case craises env stop of
                           Some e \<Rightarrow>
                             \<lparr> trace = [Returned pr, Returned ack, Raised stop e], raised = Some e,
                               stopped = False, new_count = c \<rparr>
                         | None \<Rightarrow>
                             \<lparr> trace = [Returned pr, Returned ack, Returned stop], raised = None,
                               stopped = True, new_count = c \<rparr>)
                      else
                        \<lparr> trace = [Returned pr, Returned ack], raised = None, stopped = False,
                          new_count = c \<rparr>)))"

text \<open>
  The handler \<open>except Exception as e\<close>: two logging calls, then
  \<open>method.channel.basic_nack(delivery_tag, requeue=True)\<close> inside its own
  \<open>try ... except Exception: pass\<close>. An exception of a logging call leaves the
  callback; the handler's result is the events it adds and the exception that leaves
  it, if any.
\<close>

definition gui_except :: "cenv \<Rightarrow> consumer_args \<Rightarrow> deliver \<Rightarrow> pyexc \<Rightarrow> event list \<times> pyexc option" where
  "gui_except env args method e =
     (let log1 = PrintError (name args) e; log2 = PrintExc e in
      case craises env log1 of
        Some e1 \<Rightarrow> ([Raised log1 e1], Some e1)
      | None \<Rightarrow>
         (case craises env log2 of
            Some e2 \<Rightarrow> ([Returned log1, Raised log2 e2], Some e2)
          | None \<Rightarrow>
             (case channel method of
                None \<Rightarrow> ([Returned log1, Returned log2], None)
              | Some mc \<Rightarrow>
                  let nack = BasicNack mc (delivery_tag method) True in
                  (case craises env nack of
                     None \<Rightarrow> ([Returned log1, Returned log2, Returned nack], None)
                   | Some e3 \<Rightarrow>
                       ([Returned log1, Returned log2, Raised nack e3],
                        if is_Exception e3 then None else Some e3)))))"

definition on_msg_gui ::
  "cenv \<Rightarrow> consumer_args \<Rightarrow> int \<Rightarrow> nat \<Rightarrow> deliver \<Rightarrow> basic_properties option \<Rightarrow> string \<Rightarrow> outcome" where
  "on_msg_gui env args cnt ch_cb method ps body =
     (let r = gui_try env args cnt ch_cb method ps body in
      case raised r of
        None \<Rightarrow> r
      | Some e \<Rightarrow>
          if is_Exception e then
            (case gui_except env args method e of
               (evs, x) \<Rightarrow> r\<lparr> trace := trace r @ evs, raised := x \<rparr>)
          else r)"

definition consume_gui :: "cenv \<Rightarrow> consumer_args \<Rightarrow> delivery list \<Rightarrow> outcome" where
  "consume_gui env args ds =
     start_consuming (\<lambda>cnt (ch_cb, method, ps, body). on_msg_gui env args cnt ch_cb method ps body) 0 ds"

text \<open>Concrete deliveries and outside worlds, for running the two callbacks.\<close>

definition demo_props :: basic_properties where
  "demo_props =
     \<lparr> content_type = Some ''application/json'', delivery_mode = Some 1,
       app_id = Some ''rabbitmq.producer'',
       headers = Some [(''producer_id'', ''alice''), (''host'', ''host'')],
       message_id = Some ''id-a'', timestamp = Some 1700000000 \<rparr>"

definition demo_delivery :: "nat \<Rightarrow> string \<Rightarrow> delivery" where
  "demo_delivery tag body = (1, \<lparr> delivery_tag = tag, channel = Some 1 \<rparr>, Some demo_props, body)"

definition demo_cenv :: "(ccall \<Rightarrow> pyexc option) \<Rightarrow> cenv" where
  "demo_cenv f =
     \<lparr> json_loads = (\<lambda>b. if b = ''json-1'' then Some (JObj [(''n'', JInt 1), (''text'', JStr ''Hello World'')])
                         else if b = ''json-2'' then Some (JObj [(''n'', JInt 2), (''text'', JStr ''Hello World'')])
                         else if b = ''json-list'' then Some (JArr [JInt 1])
                         else None),
       decode_utf8_ignore = (\<lambda>b. b),
       craises = f \<rparr>"

definition demo_cargs :: "int option \<Rightarrow> consumer_args" where
  "demo_cargs x = \<lparr> name = ''Worker'', expect = x \<rparr>"

text \<open>Worlds in which the display raises, and in which an acknowledgment call raises.\<close>

fun display_raises :: "ccall \<Rightarrow> pyexc option" where
  "display_raises (Print a b c d e f) = Some (Exc ''UnicodeEncodeError'')"
| "display_raises _ = None"

fun settle_raises :: "ccall \<Rightarrow> pyexc option" where
  "settle_raises (BasicAck c t) = Some ChannelWrongStateError"
| "settle_raises (BasicNack c t r) = Some ChannelWrongStateError"
| "settle_raises _ = None"

section \<open>Properties of the consumer callback\<close>

subsection \<open>When no outside call raises\<close>

lemma on_msg_quiet:
  assumes ok: "\<forall>c. craises env c = None"
  shows "on_msg env args cnt ch m ps body =
     \<lparr> trace = Returned (display_line env args (cnt + 1) ps body)
               # Returned (BasicAck ch (delivery_tag m))
               # (if enough args (cnt + 1) then [Returned (StopConsuming ch)] else []),
       raised = None, stopped = enough args (cnt + 1), new_count = cnt + 1 \<rparr>"
  using ok by (simp add: on_msg_def Let_def)

lemma start_consuming_quiet:
  assumes "\<And>cnt d. raised (cb cnt d) = None"
  shows "raised (start_consuming cb cnt ds) = None"
  using assms by (induction ds arbitrary: cnt) (simp_all add: Let_def)

lemma consume_quiet:
  assumes ok: "\<forall>c. craises env c = None"
  shows "raised (consume env args ds) = None"
  unfolding consume_def
  by (rule start_consuming_quiet) (simp add: on_msg_quiet[OF ok] split: prod.split)

lemma fallback_line:
  assumes "json_loads env body = None"
  shows "display_line env args c ps body =
     Print (name args) c (msg_id_of ps) (producer_of ps) (JStr ''?'') (JStr (decode_utf8_ignore env body))"
  using assms by (simp add: display_line_def decode_body_def)

text \<open>
  \<^bold>\<open>C5\<close> (decode resilience). For a delivery whose body \<open>json.loads\<close> rejects, in a
  world where no outside call raises: the callback displays the raw bytes decoded as
  text, with \<open>n\<close> shown as \<open>?\<close>, then acknowledges the delivery on the channel of the
  callback, and returns without an exception; and the consume loop that starts with
  such a delivery ends without an exception, whatever deliveries follow.
\<close>

theorem decode_resilience:
  assumes bad: "json_loads env body = None" and ok: "\<forall>c. craises env c = None"
  shows "on_msg env args cnt ch m ps body =
     \<lparr> trace = Returned (Print (name args) (cnt + 1) (msg_id_of ps) (producer_of ps)
                          (JStr ''?'') (JStr (decode_utf8_ignore env body)))
               # Returned (BasicAck ch (delivery_tag m))
               # (if enough args (cnt + 1) then [Returned (StopConsuming ch)] else []),
       raised = None, stopped = enough args (cnt + 1), new_count = cnt + 1 \<rparr>
     \<and> raised (consume env args ((ch, m, ps, body) # ds)) = None"
  using on_msg_quiet[OF ok, of args cnt ch m ps body] consume_quiet[OF ok]
  by (simp add: fallback_line[OF bad])

lemma demo_quiet: "\<forall>c. craises (demo_cenv (\<lambda>c. None)) c = None"
  by (simp add: demo_cenv_def)

theorem decode_resilience_witness:
  "json_loads (demo_cenv (\<lambda>c. None)) ''plain text'' = None
   \<and> on_msg (demo_cenv (\<lambda>c. None)) (demo_cargs None) 0 1 \<lparr> delivery_tag = 7, channel = Some 1 \<rparr>
        (Some demo_props) ''plain text'' =
      \<lparr> trace = [Returned (Print ''Worker'' 1 (Some ''id-a'') (Some ''alice'') (JStr ''?'') (JStr ''plain text'')),
                 Returned (BasicAck 1 7)],
        raised = None, stopped = False, new_count = 1 \<rparr>
   \<and> raised (consume (demo_cenv (\<lambda>c. None)) (demo_cargs None)
        [(1, \<lparr> delivery_tag = 7, channel = Some 1 \<rparr>, Some demo_props, ''plain text''),
         demo_delivery 8 ''json-1'']) = None"
proof -
  have bad: "json_loads (demo_cenv (\<lambda>c. None)) ''plain text'' = None"
    by (simp add: demo_cenv_def)
  have v: "name (demo_cargs None) = ''Worker''" "\<not> enough (demo_cargs None) 1"
    "msg_id_of (Some demo_props) = Some ''id-a''" "producer_of (Some demo_props) = Some ''alice''"
    "decode_utf8_ignore (demo_cenv (\<lambda>c. None)) ''plain text'' = ''plain text''"
    by (simp_all add: demo_cargs_def enough_def msg_id_of_def producer_of_def demo_props_def demo_cenv_def)
  from decode_resilience[OF bad demo_quiet, of "demo_cargs None" 0 1 "\<lparr> delivery_tag = 7, channel = Some 1 \<rparr>"
      "Some demo_props" "[demo_delivery 8 ''json-1'']"]
  show ?thesis using bad by (simp add: v)
qed


subsection \<open>Acknowledgments\<close>

lemma settlements_append: "settlements (a @ b) = settlements a @ settlements b"
  by (simp add: settlements_def)

lemma display_line_no_settle: "\<not> settles (display_line env args c ps body)"
  by (simp add: display_line_def)

lemma on_msg_settlements:
  "settlements (trace (on_msg env args cnt ch m ps body)) =
     (if craises env (display_line env args (cnt + 1) ps body) = None
      then [BasicAck ch (delivery_tag m)] else [])"
  by (simp add: on_msg_def Let_def settlements_def display_line_no_settle split: option.split)

lemma on_msg_before_settlement:
  "takeWhile (\<lambda>ev. \<not> settles (call_of ev)) (trace (on_msg env args cnt ch m ps body)) =
     [case craises env (display_line env args (cnt + 1) ps body) of
        None \<Rightarrow> Returned (display_line env args (cnt + 1) ps body)
      | Some e \<Rightarrow> Raised (display_line env args (cnt + 1) ps body) e]"
  by (simp add: on_msg_def Let_def display_line_no_settle split: option.split)

lemma enough_None: "expect args = None \<Longrightarrow> \<not> enough args c"
  by (simp add: enough_def)

lemma start_consuming_acks:
  assumes ok: "\<forall>c. craises env c = None" and ex: "expect args = None"
  shows "settlements (trace (start_consuming
            (\<lambda>cnt (ch_cb, method, ps, body). on_msg env args cnt ch_cb method ps body) cnt ds)) =
         map (\<lambda>(ch_cb, method, ps, body). BasicAck ch_cb (delivery_tag method)) ds"
proof (induction ds arbitrary: cnt)
  case Nil
  show ?case by (simp add: settlements_def)
next
  case (Cons d ds)
  obtain ch m ps body where d: "d = (ch, m, ps, body)" by (cases d)
  have r: "raised (on_msg env args cnt ch m ps body) = None"
    "\<not> stopped (on_msg env args cnt ch m ps body)"
    "new_count (on_msg env args cnt ch m ps body) = cnt + 1"
    by (simp_all add: on_msg_quiet[OF ok] enough_None[OF ex])
  have s: "settlements (trace (on_msg env args cnt ch m ps body)) = [BasicAck ch (delivery_tag m)]"
    using ok by (simp add: on_msg_settlements)
  show ?case
    by (simp add: d Let_def r settlements_append s Cons.IH)
qed

text \<open>
  \<^bold>\<open>C6\<close> (each delivery is settled exactly once). For every call of the terminal
  consumer's callback: the acknowledgment calls it issues are exactly one \<open>basic_ack\<close>,
  on the channel handed to the callback and with the delivery's tag, when the display
  returned, and none when the display raised; it never issues a negative
  acknowledgment; the only call before the acknowledgment is the display; when the
  display and the acknowledgment both return, the trace begins with exactly these two.
  Over a whole loop in which no outside call raises and no threshold is set, the
  acknowledgments are one per delivery, in delivery order.
\<close>

theorem delivery_consumed_once:
  "settlements (trace (on_msg env args cnt ch m ps body)) =
     (if craises env (display_line env args (cnt + 1) ps body) = None
      then [BasicAck ch (delivery_tag m)] else [])
   \<and> takeWhile (\<lambda>ev. \<not> settles (call_of ev)) (trace (on_msg env args cnt ch m ps body)) =
     [case craises env (display_line env args (cnt + 1) ps body) of
        None \<Rightarrow> Returned (display_line env args (cnt + 1) ps body)
      | Some e \<Rightarrow> Raised (display_line env args (cnt + 1) ps body) e]
   \<and> (craises env (display_line env args (cnt + 1) ps body) = None
        \<and> craises env (BasicAck ch (delivery_tag m)) = None \<longrightarrow>
      take 2 (trace (on_msg env args cnt ch m ps body)) =
        [Returned (display_line env args (cnt + 1) ps body), Returned (BasicAck ch (delivery_tag m))])
   \<and> ((\<forall>c. craises env c = None) \<and> expect args = None \<longrightarrow>
      settlements (trace (consume env args ds)) =
        map (\<lambda>(ch_cb, method, ps, body). BasicAck ch_cb (delivery_tag method)) ds)"
proof (intro conjI impI)
  show "settlements (trace (on_msg env args cnt ch m ps body)) =
     (if craises env (display_line env args (cnt + 1) ps body) = None
      then [BasicAck ch (delivery_tag m)] else [])"
    by (rule on_msg_settlements)
  show "takeWhile (\<lambda>ev. \<not> settles (call_of ev)) (trace (on_msg env args cnt ch m ps body)) =
     [case craises env (display_line env args (cnt + 1) ps body) of
        None \<Rightarrow> Returned (display_line env args (cnt + 1) ps body)
      | Some e \<Rightarrow> Raised (display_line env args (cnt + 1) ps body) e]"
    by (rule on_msg_before_settlement)
next
  assume "craises env (display_line env args (cnt + 1) ps body) = None
        \<and> craises env (BasicAck ch (delivery_tag m)) = None"
  then show "take 2 (trace (on_msg env args cnt ch m ps body)) =
        [Returned (display_line env args (cnt + 1) ps body), Returned (BasicAck ch (delivery_tag m))]"
    by (simp add: on_msg_def Let_def split: option.split)
next
  assume "(\<forall>c. craises env c = None) \<and> expect args = None"
  then show "settlements (trace (consume env args ds)) =
        map (\<lambda>(ch_cb, method, ps, body). BasicAck ch_cb (delivery_tag method)) ds"
    unfolding consume_def by (simp add: start_consuming_acks)
qed

theorem delivery_consumed_once_witness:
  "craises (demo_cenv (\<lambda>c. None)) (display_line (demo_cenv (\<lambda>c. None)) (demo_cargs None) (0 + 1) (Some demo_props) ''json-1'') = None
   \<and> craises (demo_cenv (\<lambda>c. None)) (BasicAck 5 7) = None
   \<and> expect (demo_cargs None) = None
   \<and> settlements (trace (on_msg (demo_cenv (\<lambda>c. None)) (demo_cargs None) 0 5
        \<lparr> delivery_tag = 7, channel = None \<rparr> (Some demo_props) ''json-1'')) = [BasicAck 5 7]
   \<and> take 2 (trace (on_msg (demo_cenv (\<lambda>c. None)) (demo_cargs None) 0 5
        \<lparr> delivery_tag = 7, channel = None \<rparr> (Some demo_props) ''json-1'')) =
      [Returned (Print ''Worker'' 1 (Some ''id-a'') (Some ''alice'') (JInt 1) (JStr ''Hello World'')),
       Returned (BasicAck 5 7)]
   \<and> settlements (trace (consume (demo_cenv (\<lambda>c. None)) (demo_cargs None)
        [demo_delivery 1 ''json-1'', demo_delivery 2 ''plain text''])) = [BasicAck 1 1, BasicAck 1 2]"
proof -
  have q: "craises (demo_cenv (\<lambda>c. None)) c = None" for c
    by (simp add: demo_cenv_def)
  have e: "expect (demo_cargs None) = None"
    by (simp add: demo_cargs_def)
  have l: "display_line (demo_cenv (\<lambda>c. None)) (demo_cargs None) 1 (Some demo_props) ''json-1'' =
      Print ''Worker'' 1 (Some ''id-a'') (Some ''alice'') (JInt 1) (JStr ''Hello World'')"
    by (simp add: display_line_def decode_body_def demo_cenv_def demo_cargs_def msg_id_of_def
        producer_of_def demo_props_def dict_get_def)
  from delivery_consumed_once[of "demo_cenv (\<lambda>c. None)" "demo_cargs None" 0 5
      "\<lparr> delivery_tag = 7, channel = None \<rparr>" "Some demo_props" "''json-1''"
      "[demo_delivery 1 ''json-1'', demo_delivery 2 ''plain text'']"]
  show ?thesis
    by (simp add: q e l demo_delivery_def)
qed

subsection \<open>The stop threshold\<close>

lemma enough_zero: "enough (args\<lparr> expect := Some 0 \<rparr>) c = enough (args\<lparr> expect := None \<rparr>) c"
  by (simp add: enough_def)

lemma on_msg_expect_zero:
  "on_msg env (args\<lparr> expect := Some 0 \<rparr>) cnt ch m ps body =
   on_msg env (args\<lparr> expect := None \<rparr>) cnt ch m ps body"
  by (simp add: on_msg_def Let_def enough_zero display_line_def split: option.split)

lemma start_consuming_never_stopped:
  assumes "\<And>cnt d. \<not> stopped (cb cnt d)"
  shows "\<not> stopped (start_consuming cb cnt ds)"
  using assms by (induction ds arbitrary: cnt) (simp_all add: Let_def)

lemma on_msg_not_stopped: "\<not> enough args (cnt + 1) \<Longrightarrow> \<not> stopped (on_msg env args cnt ch m ps body)"
  by (simp add: on_msg_def Let_def split: option.split)

lemma start_consuming_all:
  assumes "\<And>cnt d. raised (cb cnt d) = None \<and> \<not> stopped (cb cnt d) \<and> new_count (cb cnt d) = cnt + 1"
  shows "new_count (start_consuming cb cnt ds) = cnt + int (length ds)"
  using assms by (induction ds arbitrary: cnt) (simp_all add: Let_def)

text \<open>
  \<^bold>\<open>C10\<close>. With \<open>expect = 0\<close> the threshold is disabled: the callback and the whole
  loop behave exactly as with no threshold (\<open>expect = None\<close>), the consumer is never
  stopped by the callback, whatever is delivered, and when no outside call raises every
  delivery is handled.
\<close>

theorem expect_zero_disables_stop:
  "on_msg env (args\<lparr> expect := Some 0 \<rparr>) cnt ch m ps body =
     on_msg env (args\<lparr> expect := None \<rparr>) cnt ch m ps body
   \<and> consume env (args\<lparr> expect := Some 0 \<rparr>) ds = consume env (args\<lparr> expect := None \<rparr>) ds
   \<and> \<not> stopped (consume env (args\<lparr> expect := Some 0 \<rparr>) ds)
   \<and> ((\<forall>c. craises env c = None) \<longrightarrow>
        new_count (consume env (args\<lparr> expect := Some 0 \<rparr>) ds) = int (length ds))"
proof (intro conjI impI)
  show "on_msg env (args\<lparr> expect := Some 0 \<rparr>) cnt ch m ps body =
     on_msg env (args\<lparr> expect := None \<rparr>) cnt ch m ps body"
    by (rule on_msg_expect_zero)
  show "consume env (args\<lparr> expect := Some 0 \<rparr>) ds = consume env (args\<lparr> expect := None \<rparr>) ds"
    by (simp add: consume_def on_msg_expect_zero)
  have z: "\<not> enough (args\<lparr> expect := Some 0 \<rparr>) c" for c
    by (simp add: enough_def)
  show "\<not> stopped (consume env (args\<lparr> expect := Some 0 \<rparr>) ds)"
    unfolding consume_def
    by (rule start_consuming_never_stopped) (simp add: on_msg_not_stopped[OF z] split: prod.split)
  assume ok: "\<forall>c. craises env c = None"
  have "new_count (consume env (args\<lparr> expect := Some 0 \<rparr>) ds) = 0 + int (length ds)"
    unfolding consume_def
    by (rule start_consuming_all) (simp add: on_msg_quiet[OF ok] z split: prod.split)
  then show "new_count (consume env (args\<lparr> expect := Some 0 \<rparr>) ds) = int (length ds)"
    by simp
qed

theorem expect_zero_disables_stop_witness:
  "(\<forall>c. craises (demo_cenv (\<lambda>c. None)) c = None)
   \<and> \<not> stopped (consume (demo_cenv (\<lambda>c. None)) ((demo_cargs (Some 5))\<lparr> expect := Some 0 \<rparr>)
        [demo_delivery 1 ''json-1'', demo_delivery 2 ''json-2'', demo_delivery 3 ''plain text''])
   \<and> new_count (consume (demo_cenv (\<lambda>c. None)) ((demo_cargs (Some 5))\<lparr> expect := Some 0 \<rparr>)
        [demo_delivery 1 ''json-1'', demo_delivery 2 ''json-2'', demo_delivery 3 ''plain text'']) = 3
   \<and> stopped (consume (demo_cenv (\<lambda>c. None)) (demo_cargs (Some 1))
        [demo_delivery 1 ''json-1'', demo_delivery 2 ''json-2'', demo_delivery 3 ''plain text''])"
proof -
  have q: "\<forall>c. craises (demo_cenv (\<lambda>c. None)) c = None"
    by (simp add: demo_cenv_def)
  have s: "stopped (consume (demo_cenv (\<lambda>c. None)) (demo_cargs (Some 1))
        [demo_delivery 1 ''json-1'', demo_delivery 2 ''json-2'', demo_delivery 3 ''plain text''])"
    by (simp add: consume_def demo_delivery_def on_msg_quiet[OF q] enough_def demo_cargs_def Let_def)
  note t = expect_zero_disables_stop[of "demo_cenv (\<lambda>c. None)" "demo_cargs (Some 5)" 0 1
      "\<lparr> delivery_tag = 1, channel = None \<rparr>" None "[]"
      "[demo_delivery 1 ''json-1'', demo_delivery 2 ''json-2'', demo_delivery 3 ''plain text'']"]
  have a: "\<not> stopped (consume (demo_cenv (\<lambda>c. None)) ((demo_cargs (Some 5))\<lparr> expect := Some 0 \<rparr>)
        [demo_delivery 1 ''json-1'', demo_delivery 2 ''json-2'', demo_delivery 3 ''plain text''])"
    using t by (elim conjE)
  have "new_count (consume (demo_cenv (\<lambda>c. None)) ((demo_cargs (Some 5))\<lparr> expect := Some 0 \<rparr>)
        [demo_delivery 1 ''json-1'', demo_delivery 2 ''json-2'', demo_delivery 3 ''plain text'']) =
        int (length [demo_delivery 1 ''json-1'', demo_delivery 2 ''json-2'', demo_delivery 3 ''plain text''])"
    using t q by blast
  then have b: "new_count (consume (demo_cenv (\<lambda>c. None)) ((demo_cargs (Some 5))\<lparr> expect := Some 0 \<rparr>)
        [demo_delivery 1 ''json-1'', demo_delivery 2 ''json-2'', demo_delivery 3 ''plain text'']) = 3"
    by simp
  from q a b s show ?thesis by (intro conjI)
qed

subsection \<open>When the display or the acknowledgment raises\<close>

text \<open>
  The terminal consumer's callback has no handler: an exception of the display or of
  \<open>basic_ack\<close> leaves it, after the calls made so far.
\<close>

lemma on_msg_display_raises:
  assumes "craises env (display_line env args (cnt + 1) ps body) = Some e"
  shows "on_msg env args cnt ch m ps body =
     \<lparr> trace = [Raised (display_line env args (cnt + 1) ps body) e], raised = Some e,
       stopped = False, new_count = cnt + 1 \<rparr>"
  using assms by (simp add: on_msg_def Let_def)

lemma on_msg_ack_raises:
  assumes "craises env (display_line env args (cnt + 1) ps body) = None"
    and "craises env (BasicAck ch (delivery_tag m)) = Some e"
  shows "on_msg env args cnt ch m ps body =
     \<lparr> trace = [Returned (display_line env args (cnt + 1) ps body), Raised (BasicAck ch (delivery_tag m)) e],
       raised = Some e, stopped = False, new_count = cnt + 1 \<rparr>"
  using assms by (simp add: on_msg_def Let_def)

lemma demo_line:
  "display_line (demo_cenv f) (demo_cargs x) c (Some demo_props) ''json-1'' =
     Print ''Worker'' c (Some ''id-a'') (Some ''alice'') (JInt 1) (JStr ''Hello World'')"
  "display_line (demo_cenv f) (demo_cargs x) c (Some demo_props) ''json-2'' =
     Print ''Worker'' c (Some ''id-a'') (Some ''alice'') (JInt 2) (JStr ''Hello World'')"
  by (simp_all add: display_line_def decode_body_def demo_cenv_def demo_cargs_def msg_id_of_def
      producer_of_def demo_props_def dict_get_def)

lemma demo_craises: "craises (demo_cenv f) = f" "name (demo_cargs x) = ''Worker''" "expect (demo_cargs x) = x"
  by (simp_all add: demo_cenv_def demo_cargs_def)

text \<open>
  \<^bold>\<open>C1\<close> (at-least-once under handler failure), evaluated where the display raises
  on every delivery. In consumer.py the exception leaves the callback and
  \<open>start_consuming\<close>: no negative acknowledgment is issued, nothing is logged by the
  callback, and the second delivery is never handled. The callback in
  consumer_gui.py, on the same deliveries, logs the failure, issues
  \<open>basic_nack(requeue=True)\<close> for each delivery and goes on to the next one, as the
  specification requires of the consumer.
\<close>

theorem display_failure_leaves_loop:
  "consume (demo_cenv display_raises) (demo_cargs None)
      [demo_delivery 1 ''json-1'', demo_delivery 2 ''json-2''] =
     \<lparr> trace = [Raised (Print ''Worker'' 1 (Some ''id-a'') (Some ''alice'') (JInt 1) (JStr ''Hello World''))
                       (Exc ''UnicodeEncodeError'')],
       raised = Some (Exc ''UnicodeEncodeError''), stopped = False, new_count = 1 \<rparr>
   \<and> consume_gui (demo_cenv display_raises) (demo_cargs None)
      [demo_delivery 1 ''json-1'', demo_delivery 2 ''json-2''] =
     \<lparr> trace = [Raised (Print ''Worker'' 1 (Some ''id-a'') (Some ''alice'') (JInt 1) (JStr ''Hello World''))
                       (Exc ''UnicodeEncodeError''),
                Returned (PrintError ''Worker'' (Exc ''UnicodeEncodeError'')),
                Returned (PrintExc (Exc ''UnicodeEncodeError'')),
                Returned (BasicNack 1 1 True),
                Raised (Print ''Worker'' 2 (Some ''id-a'') (Some ''alice'') (JInt 2) (JStr ''Hello World''))
                       (Exc ''UnicodeEncodeError''),
                Returned (PrintError ''Worker'' (Exc ''UnicodeEncodeError'')),
                Returned (PrintExc (Exc ''UnicodeEncodeError'')),
                Returned (BasicNack 1 2 True)],
       raised = None, stopped = False, new_count = 2 \<rparr>"
  by (simp add: consume_def consume_gui_def demo_delivery_def on_msg_def on_msg_gui_def gui_try_def
      gui_except_def demo_line demo_craises Let_def)


text \<open>
  \<^bold>\<open>C7\<close> (acknowledgment transport errors are swallowed), evaluated where every
  \<open>basic_ack\<close> and \<open>basic_nack\<close> raises. In consumer.py the exception of
  \<open>basic_ack\<close> leaves the callback and \<open>start_consuming\<close>, and the second delivery is
  never handled. The callback in consumer_gui.py, on the same deliveries, logs the
  failure of \<open>basic_ack\<close>, swallows the failure of \<open>basic_nack\<close> and goes on to the
  next delivery, as the specification requires of the consumer.
\<close>

theorem ack_failure_leaves_loop:
  "consume (demo_cenv settle_raises) (demo_cargs None)
      [demo_delivery 1 ''json-1'', demo_delivery 2 ''json-2''] =
     \<lparr> trace = [Returned (Print ''Worker'' 1 (Some ''id-a'') (Some ''alice'') (JInt 1) (JStr ''Hello World'')),
                Raised (BasicAck 1 1) ChannelWrongStateError],
       raised = Some ChannelWrongStateError, stopped = False, new_count = 1 \<rparr>
   \<and> consume_gui (demo_cenv settle_raises) (demo_cargs None)
      [demo_delivery 1 ''json-1'', demo_delivery 2 ''json-2''] =
     \<lparr> trace = [Returned (Print ''Worker'' 1 (Some ''id-a'') (Some ''alice'') (JInt 1) (JStr ''Hello World'')),
                Raised (BasicAck 1 1) ChannelWrongStateError,
                Returned (PrintError ''Worker'' ChannelWrongStateError),
                Returned (PrintExc ChannelWrongStateError),
                Raised (BasicNack 1 1 True) ChannelWrongStateError,
                Returned (Print ''Worker'' 2 (Some ''id-a'') (Some ''alice'') (JInt 2) (JStr ''Hello World'')),
                Raised (BasicAck 1 2) ChannelWrongStateError,
                Returned (PrintError ''Worker'' ChannelWrongStateError),
                Returned (PrintExc ChannelWrongStateError),
                Raised (BasicNack 1 2 True) ChannelWrongStateError],
       raised = None, stopped = False, new_count = 2 \<rparr>"
  by (simp add: consume_def consume_gui_def demo_delivery_def on_msg_def on_msg_gui_def gui_try_def
      gui_except_def demo_line demo_craises Let_def)

section \<open>Topology bootstrap (ensure_queue in consumer.py, declare_topology in producer.py)\<close>

subsection \<open>The broker\<close>

text \<open>
  Modelled from the spec: the broker and the client library's channel objects are not
  code of this repository. The model follows the spec's description of the Broker
  Link (section 4.1): a passive declare checks existence without creating and fails
  with NotFound (reply code 404) if the queue is absent, after which the channel is
  unusable; an active declare creates with the given durability and arguments, is
  idempotent if they match, and fails with PreconditionFailed (406) if an existing
  entity has other ones, which closes the channel as every channel error does. A
  binding needs its queue and its exchange (404 otherwise). A call on a closed channel
  raises \<open>ChannelWrongStateError\<close> in the client library. Queue arguments are a dict,
  kept in association-list form and compared as sets of items.
\<close>

record queue_info =
  q_durable :: bool
  q_arguments :: "(string \<times> string) list"

record exchange_info =
  x_type :: string
  x_durable :: bool

text \<open>The calls of the two functions, each with the channel it is made on first.\<close>

datatype broker_call =
    QueueDeclarePassive nat string
  | QueueDeclare nat string bool "(string \<times> string) list"
  | ExchangeDeclare nat string string bool
  | QueueBind nat string string string
  | OpenChannel nat

text \<open>
  One connection to one broker: the broker's exchanges, queues and bindings
  \<open>(queue, exchange, routing key)\<close>, the connection's open channels, the number of
  the next channel object, and the calls made so far.
\<close>

record link =
  exchanges :: "string \<rightharpoonup> exchange_info"
  queues :: "string \<rightharpoonup> queue_info"
  bindings :: "(string \<times> string \<times> string) set"
  open_channels :: "nat set"
  next_channel :: nat
  calls :: "broker_call list"

definition log_call :: "broker_call \<Rightarrow> link \<Rightarrow> link" where
  "log_call c w = w\<lparr> calls := calls w @ [c] \<rparr>"

definition close_channel :: "nat \<Rightarrow> link \<Rightarrow> link" where
  "close_channel ch w = w\<lparr> open_channels := open_channels w - {ch} \<rparr>"

text \<open>\<open>conn.channel()\<close>: a new channel object, open.\<close>

definition conn_channel :: "link \<Rightarrow> nat \<times> link" where
  "conn_channel w =
     (next_channel w,
      log_call (OpenChannel (next_channel w))
        (w\<lparr> open_channels := insert (next_channel w) (open_channels w),
            next_channel := Suc (next_channel w) \<rparr>))"

text \<open>\<open>ch.queue_declare(queue=q, passive=True)\<close>\<close>

definition queue_declare_passive :: "nat \<Rightarrow> string \<Rightarrow> link \<Rightarrow> (pyexc + unit) \<times> link" where
  "queue_declare_passive ch q w0 =
     (let w = log_call (QueueDeclarePassive ch q) w0 in
      if ch \<notin> open_channels w then (Inl ChannelWrongStateError, w)
      else case queues w q of
             Some info \<Rightarrow> (Inr (), w)
           | None \<Rightarrow> (Inl (ChannelClosedByBroker 404), close_channel ch w))"

text \<open>\<open>ch.queue_declare(queue=q, durable=dur, arguments=qargs)\<close>\<close>

definition queue_declare ::
  "nat \<Rightarrow> string \<Rightarrow> bool \<Rightarrow> (string \<times> string) list \<Rightarrow> link \<Rightarrow> (pyexc + unit) \<times> link" where
  "queue_declare ch q dur qargs w0 =
     (let w = log_call (QueueDeclare ch q dur qargs) w0 in
      if ch \<notin> open_channels w then (Inl ChannelWrongStateError, w)
      else case queues w q of
             None \<Rightarrow>
               (Inr (), w\<lparr> queues := (queues w)(q \<mapsto> \<lparr> q_durable = dur, q_arguments = qargs \<rparr>) \<rparr>)
           | Some info \<Rightarrow>
               if q_durable info = dur \<and> set (q_arguments info) = set qargs then (Inr (), w)
               else (Inl (ChannelClosedByBroker 406), close_channel ch w))"

text \<open>\<open>ch.exchange_declare(exchange=x, exchange_type=ty, durable=dur)\<close>\<close>

definition exchange_declare ::
  "nat \<Rightarrow> string \<Rightarrow> string \<Rightarrow> bool \<Rightarrow> link \<Rightarrow> (pyexc + unit) \<times> link" where
  "exchange_declare ch x ty dur w0 =
     (let w = log_call (ExchangeDeclare ch x ty dur) w0 in
      if ch \<notin> open_channels w then (Inl ChannelWrongStateError, w)
      else case exchanges w x of
             None \<Rightarrow> (Inr (), w\<lparr> exchanges := (exchanges w)(x \<mapsto> \<lparr> x_type = ty, x_durable = dur \<rparr>) \<rparr>)
           | Some info \<Rightarrow>
               if x_type info = ty \<and> x_durable info = dur then (Inr (), w)
               else (Inl (ChannelClosedByBroker 406), close_channel ch w))"

text \<open>\<open>ch.queue_bind(queue=q, exchange=x, routing_key=rk)\<close>\<close>

definition queue_bind ::
  "nat \<Rightarrow> string \<Rightarrow> string \<Rightarrow> string \<Rightarrow> link \<Rightarrow> (pyexc + unit) \<times> link" where
  "queue_bind ch q x rk w0 =
     (let w = log_call (QueueBind ch q x rk) w0 in
      if ch \<notin> open_channels w then (Inl ChannelWrongStateError, w)
      else if queues w q = None \<or> exchanges w x = None then
        (Inl (ChannelClosedByBroker 404), close_channel ch w)
      else (Inr (), w\<lparr> bindings := insert (q, x, rk) (bindings w) \<rparr>))"

subsection \<open>The two functions\<close>

text \<open>
  The queue arguments both functions build: \<open>{"x-queue-type": "classic"}\<close>, and
  \<open>"x-queue-mode": "lazy"\<close> added when \<open>lazy\<close> is set.
\<close>

definition qargs :: "bool \<Rightarrow> (string \<times> string) list" where
  "qargs lz =
     (if lz then [(''x-queue-type'', ''classic''), (''x-queue-mode'', ''lazy'')]
      else [(''x-queue-type'', ''classic'')])"

text \<open>
  \<open>ensure_queue(ch, conn, queue, lazy)\<close> of consumer.py (\<open>q\<close> and \<open>lz\<close> here; the
  connection is the link). The handler catches \<open>ChannelClosedByBroker\<close> with any
  reply code; any other exception leaves the function, and so does one of the active
  declare.
\<close>

definition ensure_queue :: "nat \<Rightarrow> string \<Rightarrow> bool \<Rightarrow> link \<Rightarrow> (pyexc + nat) \<times> link" where
  "ensure_queue ch q lz w =
     (case queue_declare_passive ch q w of
        (Inr u, w1) \<Rightarrow> (Inr ch, w1)
      | (Inl (ChannelClosedByBroker code), w1) \<Rightarrow>
          (case conn_channel w1 of
             (ch2, w2) \<Rightarrow>
               (case queue_declare ch2 q True (qargs lz) w2 of
                  (Inr u, w3) \<Rightarrow> (Inr ch2, w3)
                | (Inl e, w3) \<Rightarrow> (Inl e, w3)))
      | (Inl e, w1) \<Rightarrow> (Inl e, w1))"

text \<open>Sequencing of calls: an exception ends the function.\<close>

definition and_then ::
  "(pyexc + unit) \<times> link \<Rightarrow> (link \<Rightarrow> (pyexc + unit) \<times> link) \<Rightarrow> (pyexc + unit) \<times> link" where
  "and_then r f = (case r of (Inl e, w) \<Rightarrow> (Inl e, w) | (Inr u, w) \<Rightarrow> f w)"

text \<open>
  \<open>declare_topology(ch, exchange, work_queue, audit_queue, routing_key, durable, lazy)\<close>
  of producer.py (\<open>x\<close>, \<open>wq\<close>, \<open>aq\<close>, \<open>rk\<close>, \<open>dur\<close>, \<open>lz\<close> here). It returns nothing;
  \<open>if audit_queue\<close> is false for the empty string.
\<close>

definition declare_topology ::
  "nat \<Rightarrow> string \<Rightarrow> string \<Rightarrow> string \<Rightarrow> string \<Rightarrow> bool \<Rightarrow> bool \<Rightarrow> link \<Rightarrow> (pyexc + unit) \<times> link" where
  "declare_topology ch x wq aq rk dur lz w =
     and_then (exchange_declare ch x ''direct'' True w) (\<lambda>w.
     and_then (queue_declare ch wq dur (qargs lz) w) (\<lambda>w.
     and_then (queue_bind ch wq x rk w) (\<lambda>w.
       if aq \<noteq> [] then
         and_then (queue_declare ch aq dur (qargs lz) w) (\<lambda>w.
           queue_bind ch aq x rk w)
       else (Inr (), w))))"

text \<open>The broker's topology, apart from the connection's bookkeeping.\<close>

definition topology ::
  "link \<Rightarrow> (string \<rightharpoonup> exchange_info) \<times> (string \<rightharpoonup> queue_info) \<times> (string \<times> string \<times> string) set" where
  "topology w = (exchanges w, queues w, bindings w)"

text \<open>A connection with its first channel open, to a broker that holds nothing.\<close>

definition fresh_link :: link where
  "fresh_link =
     \<lparr> exchanges = Map.empty, queues = Map.empty, bindings = {}, open_channels = {1},
       next_channel = 2, calls = [] \<rparr>"

section \<open>Properties of the bootstrap\<close>

text \<open>An exchange, or a queue, that is in place with the given settings.\<close>

definition has_exchange :: "link \<Rightarrow> string \<Rightarrow> string \<Rightarrow> bool \<Rightarrow> bool" where
  "has_exchange w x ty dur =
     (case exchanges w x of None \<Rightarrow> False | Some info \<Rightarrow> x_type info = ty \<and> x_durable info = dur)"

definition has_queue :: "link \<Rightarrow> string \<Rightarrow> bool \<Rightarrow> (string \<times> string) list \<Rightarrow> bool" where
  "has_queue w q dur a =
     (case queues w q of None \<Rightarrow> False | Some info \<Rightarrow> q_durable info = dur \<and> set (q_arguments info) = set a)"

lemma log_call_fields [simp]:
  "exchanges (log_call c w) = exchanges w" "queues (log_call c w) = queues w"
  "bindings (log_call c w) = bindings w" "open_channels (log_call c w) = open_channels w"
  "next_channel (log_call c w) = next_channel w" "calls (log_call c w) = calls w @ [c]"
  by (simp_all add: log_call_def)

lemma log_call_has [simp]:
  "has_exchange (log_call c w) x ty dur = has_exchange w x ty dur"
  "has_queue (log_call c w) q d a = has_queue w q d a"
  "topology (log_call c w) = topology w"
  by (simp_all add: has_exchange_def has_queue_def topology_def)

lemma and_then_Inr:
  "and_then r f = (Inr u, w') \<longleftrightarrow> (\<exists>w1. r = (Inr (), w1) \<and> f w1 = (Inr u, w'))"
  by (cases r) (auto simp: and_then_def split: sum.splits)

lemma and_then_ok: "r = (Inr (), w1) \<Longrightarrow> and_then r f = f w1"
  by (simp add: and_then_def)

text \<open>A call whose entity is in place changes nothing but the log.\<close>

lemma exchange_declare_again:
  "ch \<in> open_channels w \<Longrightarrow> has_exchange w x ty dur \<Longrightarrow>
   exchange_declare ch x ty dur w = (Inr (), log_call (ExchangeDeclare ch x ty dur) w)"
  by (auto simp: exchange_declare_def has_exchange_def Let_def split: option.splits)

lemma queue_declare_again:
  "ch \<in> open_channels w \<Longrightarrow> has_queue w q dur a \<Longrightarrow>
   queue_declare ch q dur a w = (Inr (), log_call (QueueDeclare ch q dur a) w)"
  by (auto simp: queue_declare_def has_queue_def Let_def split: option.splits)

lemma queue_bind_again:
  "ch \<in> open_channels w \<Longrightarrow> queues w q \<noteq> None \<Longrightarrow> exchanges w x \<noteq> None \<Longrightarrow>
   (q, x, rk) \<in> bindings w \<Longrightarrow>
   queue_bind ch q x rk w = (Inr (), log_call (QueueBind ch q x rk) w)"
  by (auto simp: queue_bind_def Let_def log_call_def insert_absorb)

lemma queue_declare_passive_again:
  "ch \<in> open_channels w \<Longrightarrow> queues w q \<noteq> None \<Longrightarrow>
   queue_declare_passive ch q w = (Inr (), log_call (QueueDeclarePassive ch q) w)"
  by (auto simp: queue_declare_passive_def Let_def split: option.splits)

text \<open>What a call that returned has left.\<close>

lemma exchange_declare_cases:
  assumes "exchange_declare ch x ty dur w = (Inr u, w')"
  shows "ch \<in> open_channels w \<and>
     ((exchanges w x = None \<and>
       w' = (log_call (ExchangeDeclare ch x ty dur) w)
              \<lparr> exchanges := (exchanges w)(x \<mapsto> \<lparr> x_type = ty, x_durable = dur \<rparr>) \<rparr>)
      \<or> (has_exchange w x ty dur \<and> w' = log_call (ExchangeDeclare ch x ty dur) w))"
  using assms
  by (simp add: exchange_declare_def has_exchange_def Let_def split: option.splits if_splits)

lemma exchange_declare_done:
  assumes "exchange_declare ch x ty dur w = (Inr u, w')"
  shows "ch \<in> open_channels w'" "has_exchange w' x ty dur" "queues w' = queues w"
    "bindings w' = bindings w" "open_channels w' = open_channels w"
    "calls w' = calls w @ [ExchangeDeclare ch x ty dur]"
proof -
  from exchange_declare_cases[OF assms] have o: "ch \<in> open_channels w"
    and c: "(exchanges w x = None \<and>
       w' = (log_call (ExchangeDeclare ch x ty dur) w)
              \<lparr> exchanges := (exchanges w)(x \<mapsto> \<lparr> x_type = ty, x_durable = dur \<rparr>) \<rparr>)
      \<or> (has_exchange w x ty dur \<and> w' = log_call (ExchangeDeclare ch x ty dur) w)"
    by simp_all
  from c show "open_channels w' = open_channels w" by (elim disjE conjE) simp_all
  with o show "ch \<in> open_channels w'" by simp
  from c show "has_exchange w' x ty dur"
    by (elim disjE conjE) (simp_all add: has_exchange_def)
  from c show "queues w' = queues w" by (elim disjE conjE) simp_all
  from c show "bindings w' = bindings w" by (elim disjE conjE) simp_all
  from c show "calls w' = calls w @ [ExchangeDeclare ch x ty dur]" by (elim disjE conjE) simp_all
qed

lemma queue_declare_cases:
  assumes "queue_declare ch q dur a w = (Inr u, w')"
  shows "ch \<in> open_channels w \<and>
     ((queues w q = None \<and>
       w' = (log_call (QueueDeclare ch q dur a) w)
              \<lparr> queues := (queues w)(q \<mapsto> \<lparr> q_durable = dur, q_arguments = a \<rparr>) \<rparr>)
      \<or> (has_queue w q dur a \<and> w' = log_call (QueueDeclare ch q dur a) w))"
  using assms
  by (simp add: queue_declare_def has_queue_def Let_def split: option.splits if_splits)

lemma queue_declare_done:
  assumes "queue_declare ch q dur a w = (Inr u, w')"
  shows "ch \<in> open_channels w'" "has_queue w' q dur a" "exchanges w' = exchanges w"
    "bindings w' = bindings w" "open_channels w' = open_channels w"
    "calls w' = calls w @ [QueueDeclare ch q dur a]"
    "queues w \<subseteq>\<^sub>m queues w'"
proof -
  from queue_declare_cases[OF assms] have o: "ch \<in> open_channels w"
    and c: "(queues w q = None \<and>
       w' = (log_call (QueueDeclare ch q dur a) w)
              \<lparr> queues := (queues w)(q \<mapsto> \<lparr> q_durable = dur, q_arguments = a \<rparr>) \<rparr>)
      \<or> (has_queue w q dur a \<and> w' = log_call (QueueDeclare ch q dur a) w)"
    by simp_all
  from c show "open_channels w' = open_channels w" by (elim disjE conjE) simp_all
  with o show "ch \<in> open_channels w'" by simp
  from c show "has_queue w' q dur a"
    by (elim disjE conjE) (simp_all add: has_queue_def)
  from c show "exchanges w' = exchanges w" by (elim disjE conjE) simp_all
  from c show "bindings w' = bindings w" by (elim disjE conjE) simp_all
  from c show "calls w' = calls w @ [QueueDeclare ch q dur a]" by (elim disjE conjE) simp_all
  from c show "queues w \<subseteq>\<^sub>m queues w'"
    by (elim disjE conjE) (auto simp: map_le_def)
qed

lemma has_queue_mono: "queues w \<subseteq>\<^sub>m queues w' \<Longrightarrow> has_queue w q d a \<Longrightarrow> has_queue w' q d a"
proof -
  assume le: "queues w \<subseteq>\<^sub>m queues w'" and h: "has_queue w q d a"
  from h obtain info where i: "queues w q = Some info" 
    by (cases "queues w q") (simp_all add: has_queue_def)
  then have "q \<in> dom (queues w)" by (simp add: domI)
  with le have "queues w' q = queues w q" by (simp add: map_le_def)
  with h show ?thesis by (simp add: has_queue_def)
qed

lemma queue_bind_cases:
  assumes "queue_bind ch q x rk w = (Inr u, w')"
  shows "ch \<in> open_channels w \<and> queues w q \<noteq> None \<and> exchanges w x \<noteq> None \<and>
     w' = (log_call (QueueBind ch q x rk) w)\<lparr> bindings := insert (q, x, rk) (bindings w) \<rparr>"
  using assms by (simp add: queue_bind_def Let_def split: if_splits)

lemma queue_bind_done:
  assumes "queue_bind ch q x rk w = (Inr u, w')"
  shows "ch \<in> open_channels w'" "(q, x, rk) \<in> bindings w'" "exchanges w' = exchanges w"
    "queues w' = queues w" "open_channels w' = open_channels w"
    "calls w' = calls w @ [QueueBind ch q x rk]"
    "bindings w \<subseteq> bindings w'" "queues w q \<noteq> None" "exchanges w x \<noteq> None"
proof -
  from queue_bind_cases[OF assms] have o: "ch \<in> open_channels w"
    and n: "queues w q \<noteq> None" "exchanges w x \<noteq> None"
    and c: "w' = (log_call (QueueBind ch q x rk) w)\<lparr> bindings := insert (q, x, rk) (bindings w) \<rparr>"
    by simp_all
  show "ch \<in> open_channels w'" using o by (simp add: c)
  show "(q, x, rk) \<in> bindings w'" by (simp add: c)
  show "exchanges w' = exchanges w" "queues w' = queues w" "open_channels w' = open_channels w"
    "calls w' = calls w @ [QueueBind ch q x rk]"
    by (simp_all add: c)
  show "bindings w \<subseteq> bindings w'" unfolding c by (simp add: subset_insertI)
  show "queues w q \<noteq> None" "exchanges w x \<noteq> None" by (rule n)+
qed

lemma has_queue_Some: "has_queue w q d a \<Longrightarrow> queues w q \<noteq> None"
  by (auto simp: has_queue_def split: option.splits)

lemma has_exchange_Some: "has_exchange w x t d \<Longrightarrow> exchanges w x \<noteq> None"
  by (auto simp: has_exchange_def split: option.splits)


lemma has_exchange_cong: "exchanges w' = exchanges w \<Longrightarrow> has_exchange w' x t d = has_exchange w x t d"
  by (simp add: has_exchange_def)

lemma has_queue_cong: "queues w' = queues w \<Longrightarrow> has_queue w' q d a = has_queue w q d a"
  by (simp add: has_queue_def)

lemma ensure_queue_present:
  assumes "ch \<in> open_channels w" and "queues w q \<noteq> None"
  shows "ensure_queue ch q lz w = (Inr ch, log_call (QueueDeclarePassive ch q) w)"
  using assms by (simp add: ensure_queue_def queue_declare_passive_again)

lemma ensure_queue_absent:
  assumes "ch \<in> open_channels w" and "queues w q = None"
  shows "ensure_queue ch q lz w =
     (Inr (next_channel w),
      w\<lparr> queues := (queues w)(q \<mapsto> \<lparr> q_durable = True, q_arguments = qargs lz \<rparr>),
         open_channels := insert (next_channel w) (open_channels w - {ch}),
         next_channel := Suc (next_channel w),
         calls := calls w @ [QueueDeclarePassive ch q, OpenChannel (next_channel w),
                             QueueDeclare (next_channel w) q True (qargs lz)] \<rparr>)"
  using assms
  by (simp add: ensure_queue_def queue_declare_passive_def conn_channel_def queue_declare_def
      close_channel_def log_call_def Let_def)

lemma declare_topology_steps:
  assumes "declare_topology ch x wq aq rk dur lz w = (Inr u, w')"
  shows "\<exists>wa wb wc. exchange_declare ch x ''direct'' True w = (Inr (), wa)
       \<and> queue_declare ch wq dur (qargs lz) wa = (Inr (), wb)
       \<and> queue_bind ch wq x rk wb = (Inr (), wc)
       \<and> (if aq \<noteq> [] then
            (\<exists>wd. queue_declare ch aq dur (qargs lz) wc = (Inr (), wd)
                 \<and> queue_bind ch aq x rk wd = (Inr (), w'))
          else w' = wc)"
proof (cases "aq = []")
  case True
  with assms show ?thesis by (auto simp add: declare_topology_def and_then_Inr)
next
  case False
  with assms show ?thesis by (auto simp add: declare_topology_def and_then_Inr)
qed

lemma declare_topology_again:
  assumes o: "ch \<in> open_channels w" and hx: "has_exchange w x ''direct'' True"
    and hq: "has_queue w wq dur (qargs lz)" and hb: "(wq, x, rk) \<in> bindings w"
    and ha: "aq \<noteq> [] \<longrightarrow> has_queue w aq dur (qargs lz) \<and> (aq, x, rk) \<in> bindings w"
  shows "declare_topology ch x wq aq rk dur lz w =
     (Inr (), w\<lparr> calls := calls w @
        [ExchangeDeclare ch x ''direct'' True, QueueDeclare ch wq dur (qargs lz), QueueBind ch wq x rk]
        @ (if aq \<noteq> [] then [QueueDeclare ch aq dur (qargs lz), QueueBind ch aq x rk] else []) \<rparr>)"
proof -
  note nn = has_queue_Some[OF hq] has_exchange_Some[OF hx]
  have three: "and_then (exchange_declare ch x ''direct'' True w) (\<lambda>w.
     and_then (queue_declare ch wq dur (qargs lz) w) (\<lambda>w.
     and_then (queue_bind ch wq x rk w) f)) =
     f (log_call (QueueBind ch wq x rk) (log_call (QueueDeclare ch wq dur (qargs lz))
          (log_call (ExchangeDeclare ch x ''direct'' True) w)))" for f
    using o hx hq hb nn
    by (simp add: exchange_declare_again queue_declare_again queue_bind_again and_then_def)
  show ?thesis
  proof (cases "aq = []")
    case True
    then show ?thesis
      unfolding declare_topology_def three by (simp add: log_call_def)
  next
    case False
    with ha have a: "has_queue w aq dur (qargs lz)" "(aq, x, rk) \<in> bindings w" by simp_all
    note na = has_queue_Some[OF a(1)]
    have "and_then (queue_declare ch aq dur (qargs lz) w') (\<lambda>w. queue_bind ch aq x rk w) =
        (Inr (), log_call (QueueBind ch aq x rk) (log_call (QueueDeclare ch aq dur (qargs lz)) w'))"
      if "w' = log_call (QueueBind ch wq x rk) (log_call (QueueDeclare ch wq dur (qargs lz))
          (log_call (ExchangeDeclare ch x ''direct'' True) w))" for w'
      using o a na nn(2) that
      by (simp add: queue_declare_again queue_bind_again and_then_def)
    with False show ?thesis
      unfolding declare_topology_def three by (simp add: log_call_def)
  qed
qed

lemma declare_topology_established:
  assumes run: "declare_topology ch x wq aq rk dur lz w = (Inr u, w')"
  shows "ch \<in> open_channels w'" "has_exchange w' x ''direct'' True"
    "has_queue w' wq dur (qargs lz)" "(wq, x, rk) \<in> bindings w'"
    "aq \<noteq> [] \<Longrightarrow> has_queue w' aq dur (qargs lz) \<and> (aq, x, rk) \<in> bindings w'"
    "queues w \<subseteq>\<^sub>m queues w'" "bindings w \<subseteq> bindings w'"
    "calls w' = calls w @
        [ExchangeDeclare ch x ''direct'' True, QueueDeclare ch wq dur (qargs lz), QueueBind ch wq x rk]
        @ (if aq \<noteq> [] then [QueueDeclare ch aq dur (qargs lz), QueueBind ch aq x rk] else [])"
proof -
  from declare_topology_steps[OF run] obtain wa wb wc where
    a: "exchange_declare ch x ''direct'' True w = (Inr (), wa)" and
    b: "queue_declare ch wq dur (qargs lz) wa = (Inr (), wb)" and
    c: "queue_bind ch wq x rk wb = (Inr (), wc)" and
    d: "if aq \<noteq> [] then
            (\<exists>wd. queue_declare ch aq dur (qargs lz) wc = (Inr (), wd)
                 \<and> queue_bind ch aq x rk wd = (Inr (), w'))
          else w' = wc"
    by (elim exE conjE)
  note A = exchange_declare_done[OF a] and B = queue_declare_done[OF b] and C = queue_bind_done[OF c]
  have xc: "has_exchange wc x ''direct'' True"
    using A(2) by (simp add: has_exchange_cong[of wc wa] B(3) C(3))
  have qc: "has_queue wc wq dur (qargs lz)"
    using B(2) by (simp add: has_queue_cong[of wc wb] C(4))
  have lec: "queues w \<subseteq>\<^sub>m queues wc"
    using B(7) by (simp add: A(3) C(4))
  have bc: "bindings w \<subseteq> bindings wc"
    using C(7) by (simp add: A(4) B(4))
  have cc: "calls wc = calls w @
        [ExchangeDeclare ch x ''direct'' True, QueueDeclare ch wq dur (qargs lz), QueueBind ch wq x rk]"
    by (simp add: A(6) B(6) C(6))
  have all: "ch \<in> open_channels w' \<and> has_exchange w' x ''direct'' True \<and>
    has_queue w' wq dur (qargs lz) \<and> (wq, x, rk) \<in> bindings w' \<and>
    (aq \<noteq> [] \<longrightarrow> has_queue w' aq dur (qargs lz) \<and> (aq, x, rk) \<in> bindings w') \<and>
    queues w \<subseteq>\<^sub>m queues w' \<and> bindings w \<subseteq> bindings w' \<and>
    calls w' = calls w @
        [ExchangeDeclare ch x ''direct'' True, QueueDeclare ch wq dur (qargs lz), QueueBind ch wq x rk]
        @ (if aq \<noteq> [] then [QueueDeclare ch aq dur (qargs lz), QueueBind ch aq x rk] else [])"
  proof (cases "aq = []")
    case True
    with d have "w' = wc" by simp
    with True C(1,2) xc qc lec bc cc
    show ?thesis
      by simp
  next
    case False
    with d obtain wd where
      e: "queue_declare ch aq dur (qargs lz) wc = (Inr (), wd)" and
      f: "queue_bind ch aq x rk wd = (Inr (), w')"
      by auto
    note E = queue_declare_done[OF e] and F = queue_bind_done[OF f]
    have x': "has_exchange w' x ''direct'' True"
      using xc by (simp add: has_exchange_cong[of w' wc] E(3) F(3))
    have q': "has_queue w' wq dur (qargs lz)"
      using has_queue_mono[OF E(7) qc] by (simp add: has_queue_cong[of w' wd] F(4))
    have a': "has_queue w' aq dur (qargs lz)"
      using E(2) by (simp add: has_queue_cong[of w' wd] F(4))
    have b': "(wq, x, rk) \<in> bindings w'"
      using C(2) F(7) by (auto simp: E(4))
    have le': "queues w \<subseteq>\<^sub>m queues w'"
      using map_le_trans[OF lec E(7)] by (simp add: F(4))
    have bs': "bindings w \<subseteq> bindings w'"
      using bc F(7) by (auto simp: E(4))
    have c': "calls w' = calls w @
        [ExchangeDeclare ch x ''direct'' True, QueueDeclare ch wq dur (qargs lz), QueueBind ch wq x rk]
        @ [QueueDeclare ch aq dur (qargs lz), QueueBind ch aq x rk]"
      by (simp add: cc E(6) F(6))
    from False F(1,2) x' q' a' b' le' bs' c'
    show ?thesis
      by simp
  qed
  then show "ch \<in> open_channels w'" "has_exchange w' x ''direct'' True"
    "has_queue w' wq dur (qargs lz)" "(wq, x, rk) \<in> bindings w'"
    "aq \<noteq> [] \<Longrightarrow> has_queue w' aq dur (qargs lz) \<and> (aq, x, rk) \<in> bindings w'"
    "queues w \<subseteq>\<^sub>m queues w'" "bindings w \<subseteq> bindings w'"
    "calls w' = calls w @
        [ExchangeDeclare ch x ''direct'' True, QueueDeclare ch wq dur (qargs lz), QueueBind ch wq x rk]
        @ (if aq \<noteq> [] then [QueueDeclare ch aq dur (qargs lz), QueueBind ch aq x rk] else [])"
    by simp_all
qed


text \<open>
  \<^bold>\<open>C3\<close>, as stated, on a broker that holds nothing. \<open>ensure_queue\<close> probes, opens a
  new channel and declares the queue, and nothing else: no exchange and no binding
  exist afterwards. \<open>declare_topology\<close> declares the exchange, the queues and the
  bindings without any passive declare before.
\<close>

theorem bootstrap_counterexample:
  "calls (snd (ensure_queue 1 ''work.queue'' False fresh_link)) =
     [QueueDeclarePassive 1 ''work.queue'', OpenChannel 2,
      QueueDeclare 2 ''work.queue'' True [(''x-queue-type'', ''classic'')]]
   \<and> exchanges (snd (ensure_queue 1 ''work.queue'' False fresh_link)) = Map.empty
   \<and> bindings (snd (ensure_queue 1 ''work.queue'' False fresh_link)) = {}
   \<and> calls (snd (declare_topology 1 ''direct.exchange'' ''work.queue'' ''audit.queue'' ''work''
        False False fresh_link)) =
     [ExchangeDeclare 1 ''direct.exchange'' ''direct'' True,
      QueueDeclare 1 ''work.queue'' False [(''x-queue-type'', ''classic'')],
      QueueBind 1 ''work.queue'' ''direct.exchange'' ''work'',
      QueueDeclare 1 ''audit.queue'' False [(''x-queue-type'', ''classic'')],
      QueueBind 1 ''audit.queue'' ''direct.exchange'' ''work'']"
proof -
  have o: "1 \<in> open_channels fresh_link" and q: "queues fresh_link ''work.queue'' = None"
    by (simp_all add: fresh_link_def)
  have e: "calls (snd (ensure_queue 1 ''work.queue'' False fresh_link)) =
     [QueueDeclarePassive 1 ''work.queue'', OpenChannel 2,
      QueueDeclare 2 ''work.queue'' True [(''x-queue-type'', ''classic'')]]"
    "exchanges (snd (ensure_queue 1 ''work.queue'' False fresh_link)) = Map.empty"
    "bindings (snd (ensure_queue 1 ''work.queue'' False fresh_link)) = {}"
    unfolding ensure_queue_absent[OF o q] by (simp_all add: fresh_link_def qargs_def)
  have d: "calls (snd (declare_topology 1 ''direct.exchange'' ''work.queue'' ''audit.queue'' ''work''
        False False fresh_link)) =
     [ExchangeDeclare 1 ''direct.exchange'' ''direct'' True,
      QueueDeclare 1 ''work.queue'' False [(''x-queue-type'', ''classic'')],
      QueueBind 1 ''work.queue'' ''direct.exchange'' ''work'',
      QueueDeclare 1 ''audit.queue'' False [(''x-queue-type'', ''classic'')],
      QueueBind 1 ''audit.queue'' ''direct.exchange'' ''work'']"
    by (simp add: declare_topology_def and_then_def exchange_declare_def queue_declare_def
        queue_bind_def log_call_def fresh_link_def qargs_def Let_def)
  from e d show ?thesis by (intro conjI)
qed

text \<open>
  \<^bold>\<open>C3\<close>, amended. Called on an open channel, the consumer's \<open>ensure_queue\<close> first
  makes a passive declare of the queue. If the queue exists it makes no other call and
  returns the channel it was given. If the probe fails (the channel is closed by the
  broker) it opens a new channel, declares on it the queue alone, durable, with
  \<open>x-queue-type=classic\<close>, and returns the new channel; it declares no exchange and
  no binding. The producer's \<open>declare_topology\<close> makes no probe: when it returns, its
  calls were the active declare of the exchange, of the work queue and its binding,
  and of the audit queue and its binding when an audit queue is named. In both, the
  queue arguments hold \<open>x-queue-mode=lazy\<close> exactly when \<open>lazy\<close> is set.
\<close>

theorem bootstrap_behaviour:
  assumes "ch \<in> open_channels w"
  shows "ensure_queue ch q lz w =
     (if queues w q \<noteq> None then (Inr ch, w\<lparr> calls := calls w @ [QueueDeclarePassive ch q] \<rparr>)
      else (Inr (next_channel w),
            w\<lparr> queues := (queues w)(q \<mapsto> \<lparr> q_durable = True, q_arguments = qargs lz \<rparr>),
               open_channels := insert (next_channel w) (open_channels w - {ch}),
               next_channel := Suc (next_channel w),
               calls := calls w @ [QueueDeclarePassive ch q, OpenChannel (next_channel w),
                                   QueueDeclare (next_channel w) q True (qargs lz)] \<rparr>))
   \<and> ((''x-queue-mode'', ''lazy'') \<in> set (qargs lz)) = lz
   \<and> (fst (declare_topology ch x wq aq rk dur lz w) = Inr () \<longrightarrow>
        calls (snd (declare_topology ch x wq aq rk dur lz w)) =
          calls w @ [ExchangeDeclare ch x ''direct'' True, QueueDeclare ch wq dur (qargs lz),
                     QueueBind ch wq x rk]
                  @ (if aq \<noteq> [] then [QueueDeclare ch aq dur (qargs lz), QueueBind ch aq x rk]
                     else []))"
proof (intro conjI impI)
  show "ensure_queue ch q lz w =
     (if queues w q \<noteq> None then (Inr ch, w\<lparr> calls := calls w @ [QueueDeclarePassive ch q] \<rparr>)
      else (Inr (next_channel w),
            w\<lparr> queues := (queues w)(q \<mapsto> \<lparr> q_durable = True, q_arguments = qargs lz \<rparr>),
               open_channels := insert (next_channel w) (open_channels w - {ch}),
               next_channel := Suc (next_channel w),
               calls := calls w @ [QueueDeclarePassive ch q, OpenChannel (next_channel w),
                                   QueueDeclare (next_channel w) q True (qargs lz)] \<rparr>))"
  proof (cases "queues w q = None")
    case True
    then show ?thesis by (simp add: ensure_queue_absent[OF assms])
  next
    case False
    then show ?thesis by (simp add: ensure_queue_present[OF assms] log_call_def)
  qed
  show "((''x-queue-mode'', ''lazy'') \<in> set (qargs lz)) = lz"
    by (simp add: qargs_def)
next
  assume ok: "fst (declare_topology ch x wq aq rk dur lz w) = Inr ()"
  then have "declare_topology ch x wq aq rk dur lz w =
      (Inr (), snd (declare_topology ch x wq aq rk dur lz w))"
    by (simp add: prod_eq_iff)
  then show "calls (snd (declare_topology ch x wq aq rk dur lz w)) =
          calls w @ [ExchangeDeclare ch x ''direct'' True, QueueDeclare ch wq dur (qargs lz),
                     QueueBind ch wq x rk]
                  @ (if aq \<noteq> [] then [QueueDeclare ch aq dur (qargs lz), QueueBind ch aq x rk]
                     else [])"
    by (rule declare_topology_established(8))
qed

text \<open>
  \<^bold>\<open>C4\<close> (idempotent bootstrap). \<open>ensure_queue\<close> on an open channel raises nothing and
  returns an open channel, leaving every existing queue, the exchanges and the bindings
  as they were; run again on the returned channel it raises nothing, returns the same
  channel and changes nothing of the broker's topology (only the call is logged).
  \<open>declare_topology\<close>, when its first run has returned, leaves the channel open and
  existing queues and bindings in place; run again with the same arguments it returns
  again and changes nothing of the topology.
\<close>

theorem bootstrap_idempotent:
  "(ch \<in> open_channels w \<longrightarrow>
      (\<exists>c1 w1. ensure_queue ch q lz w = (Inr c1, w1)
         \<and> c1 \<in> open_channels w1
         \<and> queues w \<subseteq>\<^sub>m queues w1 \<and> exchanges w1 = exchanges w \<and> bindings w1 = bindings w
         \<and> ensure_queue c1 q lz w1 = (Inr c1, w1\<lparr> calls := calls w1 @ [QueueDeclarePassive c1 q] \<rparr>)
         \<and> topology (snd (ensure_queue c1 q lz w1)) = topology w1))
   \<and> (declare_topology ch x wq aq rk dur lz w = (Inr (), w2) \<longrightarrow>
        ch \<in> open_channels w2
      \<and> queues w \<subseteq>\<^sub>m queues w2 \<and> bindings w \<subseteq> bindings w2
      \<and> declare_topology ch x wq aq rk dur lz w2 =
          (Inr (), w2\<lparr> calls := calls w2 @
             [ExchangeDeclare ch x ''direct'' True, QueueDeclare ch wq dur (qargs lz),
              QueueBind ch wq x rk]
             @ (if aq \<noteq> [] then [QueueDeclare ch aq dur (qargs lz), QueueBind ch aq x rk]
                else []) \<rparr>)
      \<and> topology (snd (declare_topology ch x wq aq rk dur lz w2)) = topology w2)"
proof (intro conjI impI)
  assume o: "ch \<in> open_channels w"
  show "\<exists>c1 w1. ensure_queue ch q lz w = (Inr c1, w1)
         \<and> c1 \<in> open_channels w1
         \<and> queues w \<subseteq>\<^sub>m queues w1 \<and> exchanges w1 = exchanges w \<and> bindings w1 = bindings w
         \<and> ensure_queue c1 q lz w1 = (Inr c1, w1\<lparr> calls := calls w1 @ [QueueDeclarePassive c1 q] \<rparr>)
         \<and> topology (snd (ensure_queue c1 q lz w1)) = topology w1"
  proof (cases "queues w q = None")
    case False
    define w1 where "w1 = log_call (QueueDeclarePassive ch q) w"
    have r: "ensure_queue ch q lz w = (Inr ch, w1)"
      unfolding w1_def using o False by (rule ensure_queue_present)
    have o1: "ch \<in> open_channels w1" and q1: "queues w1 q \<noteq> None"
      using o False by (simp_all add: w1_def)
    have again: "ensure_queue ch q lz w1 = (Inr ch, w1\<lparr> calls := calls w1 @ [QueueDeclarePassive ch q] \<rparr>)"
      by (simp add: ensure_queue_present[OF o1 q1] log_call_def)
    have t: "topology (snd (ensure_queue ch q lz w1)) = topology w1"
      by (simp add: again topology_def)
    have "queues w \<subseteq>\<^sub>m queues w1" "exchanges w1 = exchanges w" "bindings w1 = bindings w"
      by (simp_all add: w1_def)
    with r o1 again t show ?thesis by blast
  next
    case True
    define c1 where "c1 = next_channel w"
    define w1 where "w1 = w\<lparr> queues := (queues w)(q \<mapsto> \<lparr> q_durable = True, q_arguments = qargs lz \<rparr>),
         open_channels := insert (next_channel w) (open_channels w - {ch}),
         next_channel := Suc (next_channel w),
         calls := calls w @ [QueueDeclarePassive ch q, OpenChannel (next_channel w),
                             QueueDeclare (next_channel w) q True (qargs lz)] \<rparr>"
    have r: "ensure_queue ch q lz w = (Inr c1, w1)"
      unfolding w1_def c1_def using o True by (rule ensure_queue_absent)
    have o1: "c1 \<in> open_channels w1" and q1: "queues w1 q \<noteq> None"
      by (simp_all add: w1_def c1_def)
    have again: "ensure_queue c1 q lz w1 = (Inr c1, w1\<lparr> calls := calls w1 @ [QueueDeclarePassive c1 q] \<rparr>)"
      by (simp add: ensure_queue_present[OF o1 q1] log_call_def)
    have t: "topology (snd (ensure_queue c1 q lz w1)) = topology w1"
      by (simp add: again topology_def)
    have "queues w \<subseteq>\<^sub>m queues w1" "exchanges w1 = exchanges w" "bindings w1 = bindings w"
      using True by (auto simp: w1_def map_le_def)
    with r o1 again t show ?thesis by blast
  qed
next
  assume run: "declare_topology ch x wq aq rk dur lz w = (Inr (), w2)"
  note E = declare_topology_established[OF run]
  show "ch \<in> open_channels w2" "queues w \<subseteq>\<^sub>m queues w2" "bindings w \<subseteq> bindings w2"
    by (rule E)+
  have ha: "aq \<noteq> [] \<longrightarrow> has_queue w2 aq dur (qargs lz) \<and> (aq, x, rk) \<in> bindings w2"
    using E(5) by blast
  show again: "declare_topology ch x wq aq rk dur lz w2 =
          (Inr (), w2\<lparr> calls := calls w2 @
             [ExchangeDeclare ch x ''direct'' True, QueueDeclare ch wq dur (qargs lz),
              QueueBind ch wq x rk]
             @ (if aq \<noteq> [] then [QueueDeclare ch aq dur (qargs lz), QueueBind ch aq x rk]
                else []) \<rparr>)"
    by (rule declare_topology_again[OF E(1) E(2) E(3) E(4) ha])
  show "topology (snd (declare_topology ch x wq aq rk dur lz w2)) = topology w2"
    by (simp add: again topology_def)
qed


lemma fresh_link_facts:
  "1 \<in> open_channels fresh_link" "queues fresh_link q = None" "next_channel fresh_link = 2"
  "calls fresh_link = []"
  by (simp_all add: fresh_link_def)

lemma declare_topology_fresh:
  "fst (declare_topology 1 ''direct.exchange'' ''work.queue'' ''audit.queue'' ''work'' True True fresh_link) = Inr ()"
  by (simp add: declare_topology_def and_then_def exchange_declare_def queue_declare_def
      queue_bind_def log_call_def fresh_link_def qargs_def Let_def)

theorem bootstrap_behaviour_witness:
  "1 \<in> open_channels fresh_link
   \<and> fst (ensure_queue 1 ''work.queue'' True fresh_link) = Inr 2
   \<and> calls (snd (ensure_queue 1 ''work.queue'' True fresh_link)) =
       [QueueDeclarePassive 1 ''work.queue'', OpenChannel 2,
        QueueDeclare 2 ''work.queue'' True [(''x-queue-type'', ''classic''), (''x-queue-mode'', ''lazy'')]]
   \<and> fst (declare_topology 1 ''direct.exchange'' ''work.queue'' ''audit.queue'' ''work'' True True fresh_link) = Inr ()
   \<and> calls (snd (declare_topology 1 ''direct.exchange'' ''work.queue'' ''audit.queue'' ''work'' True True fresh_link)) =
       [ExchangeDeclare 1 ''direct.exchange'' ''direct'' True,
        QueueDeclare 1 ''work.queue'' True [(''x-queue-type'', ''classic''), (''x-queue-mode'', ''lazy'')],
        QueueBind 1 ''work.queue'' ''direct.exchange'' ''work'',
        QueueDeclare 1 ''audit.queue'' True [(''x-queue-type'', ''classic''), (''x-queue-mode'', ''lazy'')],
        QueueBind 1 ''audit.queue'' ''direct.exchange'' ''work'']"
proof -
  note t = bootstrap_behaviour[OF fresh_link_facts(1), of "''work.queue''" True "''direct.exchange''"
      "''work.queue''" "''audit.queue''" "''work''" True]
  from t have e: "ensure_queue 1 ''work.queue'' True fresh_link =
      (Inr (next_channel fresh_link),
            fresh_link\<lparr> queues := (queues fresh_link)(''work.queue'' \<mapsto> \<lparr> q_durable = True, q_arguments = qargs True \<rparr>),
               open_channels := insert (next_channel fresh_link) (open_channels fresh_link - {1}),
               next_channel := Suc (next_channel fresh_link),
               calls := calls fresh_link @ [QueueDeclarePassive 1 ''work.queue'', OpenChannel (next_channel fresh_link),
                                   QueueDeclare (next_channel fresh_link) ''work.queue'' True (qargs True)] \<rparr>)"
    by (simp only: fresh_link_facts(2) not_not refl if_False simp_thms)
  have e1: "fst (ensure_queue 1 ''work.queue'' True fresh_link) = Inr 2"
    unfolding e by (simp add: fresh_link_facts)
  have e2: "calls (snd (ensure_queue 1 ''work.queue'' True fresh_link)) =
       [QueueDeclarePassive 1 ''work.queue'', OpenChannel 2,
        QueueDeclare 2 ''work.queue'' True [(''x-queue-type'', ''classic''), (''x-queue-mode'', ''lazy'')]]"
    unfolding e by (simp add: fresh_link_facts qargs_def)
  from t declare_topology_fresh
  have "calls (snd (declare_topology 1 ''direct.exchange'' ''work.queue'' ''audit.queue'' ''work'' True True fresh_link)) =
          calls fresh_link @ [ExchangeDeclare 1 ''direct.exchange'' ''direct'' True,
                     QueueDeclare 1 ''work.queue'' True (qargs True),
                     QueueBind 1 ''work.queue'' ''direct.exchange'' ''work'']
                  @ (if ''audit.queue'' \<noteq> [] then [QueueDeclare 1 ''audit.queue'' True (qargs True),
                        QueueBind 1 ''audit.queue'' ''direct.exchange'' ''work'']
                     else [])"
    by blast
  then have d: "calls (snd (declare_topology 1 ''direct.exchange'' ''work.queue'' ''audit.queue'' ''work'' True True fresh_link)) =
       [ExchangeDeclare 1 ''direct.exchange'' ''direct'' True,
        QueueDeclare 1 ''work.queue'' True [(''x-queue-type'', ''classic''), (''x-queue-mode'', ''lazy'')],
        QueueBind 1 ''work.queue'' ''direct.exchange'' ''work'',
        QueueDeclare 1 ''audit.queue'' True [(''x-queue-type'', ''classic''), (''x-queue-mode'', ''lazy'')],
        QueueBind 1 ''audit.queue'' ''direct.exchange'' ''work'']"
    by (simp add: fresh_link_facts qargs_def)
  from fresh_link_facts(1) e1 e2 declare_topology_fresh d show ?thesis by (intro conjI)
qed

theorem bootstrap_idempotent_witness:
  "1 \<in> open_channels fresh_link
   \<and> fst (ensure_queue 1 ''work.queue'' True fresh_link) = Inr 2
   \<and> fst (ensure_queue 2 ''work.queue'' True (snd (ensure_queue 1 ''work.queue'' True fresh_link))) = Inr 2
   \<and> topology (snd (ensure_queue 2 ''work.queue'' True (snd (ensure_queue 1 ''work.queue'' True fresh_link)))) =
       topology (snd (ensure_queue 1 ''work.queue'' True fresh_link))
   \<and> fst (declare_topology 1 ''direct.exchange'' ''work.queue'' ''audit.queue'' ''work'' True True fresh_link) = Inr ()
   \<and> fst (declare_topology 1 ''direct.exchange'' ''work.queue'' ''audit.queue'' ''work'' True True
        (snd (declare_topology 1 ''direct.exchange'' ''work.queue'' ''audit.queue'' ''work'' True True fresh_link))) = Inr ()
   \<and> topology (snd (declare_topology 1 ''direct.exchange'' ''work.queue'' ''audit.queue'' ''work'' True True
        (snd (declare_topology 1 ''direct.exchange'' ''work.queue'' ''audit.queue'' ''work'' True True fresh_link)))) =
       topology (snd (declare_topology 1 ''direct.exchange'' ''work.queue'' ''audit.queue'' ''work'' True True fresh_link))"
proof -
  let ?w2 = "snd (declare_topology 1 ''direct.exchange'' ''work.queue'' ''audit.queue'' ''work'' True True fresh_link)"
  have run: "declare_topology 1 ''direct.exchange'' ''work.queue'' ''audit.queue'' ''work'' True True fresh_link =
      (Inr (), ?w2)"
    using declare_topology_fresh by (simp add: prod_eq_iff)
  note t = bootstrap_idempotent[of 1 fresh_link "''work.queue''" True "''direct.exchange''"
      "''work.queue''" "''audit.queue''" "''work''" True ?w2]
  from t fresh_link_facts(1) obtain c1 w1 where
    r: "ensure_queue 1 ''work.queue'' True fresh_link = (Inr c1, w1)" and
    a: "ensure_queue c1 ''work.queue'' True w1 = (Inr c1, w1\<lparr> calls := calls w1 @ [QueueDeclarePassive c1 ''work.queue''] \<rparr>)" and
    tp: "topology (snd (ensure_queue c1 ''work.queue'' True w1)) = topology w1"
    by blast
  have "fst (ensure_queue 1 ''work.queue'' True fresh_link) = Inr 2"
    unfolding ensure_queue_absent[OF fresh_link_facts(1,2)] by (simp add: fresh_link_facts)
  with r have c1: "c1 = 2" and w1: "w1 = snd (ensure_queue 1 ''work.queue'' True fresh_link)"
    by simp_all
  have e1: "fst (ensure_queue 1 ''work.queue'' True fresh_link) = Inr 2"
    using r c1 by simp
  have e2: "fst (ensure_queue 2 ''work.queue'' True (snd (ensure_queue 1 ''work.queue'' True fresh_link))) = Inr 2"
    using a unfolding c1 w1 by simp
  have e3: "topology (snd (ensure_queue 2 ''work.queue'' True (snd (ensure_queue 1 ''work.queue'' True fresh_link)))) =
       topology (snd (ensure_queue 1 ''work.queue'' True fresh_link))"
    using tp unfolding c1 w1 .
  from t run have d: "declare_topology 1 ''direct.exchange'' ''work.queue'' ''audit.queue'' ''work'' True True ?w2 =
          (Inr (), ?w2\<lparr> calls := calls ?w2 @
             [ExchangeDeclare 1 ''direct.exchange'' ''direct'' True, QueueDeclare 1 ''work.queue'' True (qargs True),
              QueueBind 1 ''work.queue'' ''direct.exchange'' ''work'']
             @ (if ''audit.queue'' \<noteq> [] then [QueueDeclare 1 ''audit.queue'' True (qargs True),
                  QueueBind 1 ''audit.queue'' ''direct.exchange'' ''work'']
                else []) \<rparr>)"
    and d3: "topology (snd (declare_topology 1 ''direct.exchange'' ''work.queue'' ''audit.queue'' ''work'' True True ?w2)) =
       topology ?w2"
    by blast+
  have d2: "fst (declare_topology 1 ''direct.exchange'' ''work.queue'' ''audit.queue'' ''work'' True True ?w2) = Inr ()"
    unfolding d by simp
  from fresh_link_facts(1) e1 e2 e3 declare_topology_fresh d2 d3 show ?thesis by (intro conjI)
qed

end
